theory Spec2Isabelle
  imports Main
begin

section \<open>JavaScript values and array primitives used by the renderer\<close>

text \<open>
  The server renderer (\<^verbatim>\<open>packages/@lwc/engine-server/src/renderer.ts\<close>) works on plain
  JavaScript objects. The values that reach attribute slots are modelled by \<open>js_value\<close>;
  numbers and objects are left out (their \<^verbatim>\<open>String(...)\<close> image needs floating point).
\<close>

datatype js_value = JSUndefined | JSNull | JSBoolean bool | JSString string

text \<open>\<^verbatim>\<open>String(value)\<close>.\<close>

fun js_String :: "js_value \<Rightarrow> string" where
  "js_String JSUndefined = ''undefined''"
| "js_String JSNull = ''null''"
| "js_String (JSBoolean b) = (if b then ''true'' else ''false'')"
| "js_String (JSString s) = s"

text \<open>\<^verbatim>\<open>Array.prototype.indexOf\<close>: the index of the first strictly equal element, or \<open>-1\<close>.\<close>

fun indexOf :: "'a list \<Rightarrow> 'a \<Rightarrow> int" where
  "indexOf [] x = -1"
| "indexOf (y # ys) x =
     (if y = x then 0 else (let i = indexOf ys x in if i = -1 then -1 else i + 1))"

text \<open>
  \<^verbatim>\<open>Array.prototype.splice(start, deleteCount, ...items)\<close>: a negative \<open>start\<close> counts
  from the end (clamped at 0), a \<open>start\<close> beyond the end is the end.
\<close>

definition splice_array :: "'a list \<Rightarrow> int \<Rightarrow> nat \<Rightarrow> 'a list \<Rightarrow> 'a list" where
  "splice_array xs start deleteCount items =
     (let len = int (length xs);
          k = nat (if start < 0 then max (len + start) 0 else min start len)
      in take k xs @ items @ drop (k + deleteCount) xs)"

text \<open>\<^verbatim>\<open>Array.prototype.push\<close>.\<close>

definition push :: "'a list \<Rightarrow> 'a \<Rightarrow> 'a list" where
  "push xs x = xs @ [x]"

section \<open>The host document model\<close>

text \<open>
  Host nodes are objects with identity: a node is a reference into a heap of node
  records. \<open>next_ref\<close> counts the node objects allocated so far and
  \<open>next_closure\<close> the listener closures created by \<^verbatim>\<open>addEventListener\<close>.
\<close>

type_synonym ref = nat

datatype HostNodeType = Text | Comment | Raw | Element | ShadowRoot

record HostAttribute =
  attr_name :: string
  attr_namespace :: "string option"
  attr_value :: js_value

text \<open>
  What a listener does when it is called with the event proxy. A user listener is
  \<open>Fn i steps\<close>: the function object \<open>i\<close>, which performs the listed steps in order
  and leaves the host tree alone. A step calls \<^verbatim>\<open>stopPropagation()\<close>,
  \<^verbatim>\<open>stopImmediatePropagation()\<close> or \<^verbatim>\<open>preventDefault()\<close> on the proxy, or raises an
  exception of the listener's own (\<open>Throw\<close>); an exception ends the listener.
  \<open>OnceWrapper w node type callback\<close> is the closure \<^verbatim>\<open>savedCallback\<close> that
  \<^verbatim>\<open>addEventListener\<close> builds for \<^verbatim>\<open>once\<close>; it is the closure object \<open>w\<close> and
  captures \<^verbatim>\<open>node\<close>, \<^verbatim>\<open>type\<close> and \<^verbatim>\<open>callback\<close>.
\<close>

datatype listener_step = StopPropagation | StopImmediatePropagation | PreventDefault | Throw

datatype callback = Fn nat "listener_step list"

datatype listener = Plain callback | OnceWrapper nat ref string callback

text \<open>
  \<open>HostEventListenersKey\<close> holds the own properties of the listener map, an object
  created by the literal \<^verbatim>\<open>{}\<close> in \<^verbatim>\<open>createElement\<close>; what a lookup finds beyond them is
  described by \<open>lookup_listeners\<close> below.
\<close>

record host_node =
  HostTypeKey :: HostNodeType
  tagName :: string
  HostNamespaceKey :: string
  HostParentKey :: "ref option"
  HostShadowRootKey :: "ref option"
  HostChildrenKey :: "ref list"
  HostAttributesKey :: "HostAttribute list"
  HostEventListenersKey :: "string \<Rightarrow> listener list option"
  HostValueKey :: js_value

record heap =
  nodes :: "ref \<Rightarrow> host_node"
  next_ref :: ref
  next_closure :: nat

definition modify :: "ref \<Rightarrow> (host_node \<Rightarrow> host_node) \<Rightarrow> heap \<Rightarrow> heap" where
  "modify r f h = h\<lparr>nodes := (nodes h)(r := f (nodes h r))\<rparr>"

definition children_of :: "heap \<Rightarrow> ref \<Rightarrow> ref list" where
  "children_of h r = HostChildrenKey (nodes h r)"

definition parent_of :: "heap \<Rightarrow> ref \<Rightarrow> ref option" where
  "parent_of h r = HostParentKey (nodes h r)"

definition type_of_node :: "heap \<Rightarrow> ref \<Rightarrow> HostNodeType" where
  "type_of_node h r = HostTypeKey (nodes h r)"

subsection \<open>Node creation\<close>

definition HTML_NAMESPACE :: string where
  "HTML_NAMESPACE = ''http://www.w3.org/1999/xhtml''"

definition blank_node :: host_node where
  "blank_node = \<lparr>HostTypeKey = Text, tagName = [], HostNamespaceKey = [],
     HostParentKey = None, HostShadowRootKey = None, HostChildrenKey = [],
     HostAttributesKey = [], HostEventListenersKey = (\<lambda>_. None), HostValueKey = JSUndefined\<rparr>"

definition alloc :: "host_node \<Rightarrow> heap \<Rightarrow> ref \<times> heap" where
  "alloc n h = (next_ref h, h\<lparr>nodes := (nodes h)(next_ref h := n), next_ref := Suc (next_ref h)\<rparr>)"

definition createElement :: "string \<Rightarrow> string option \<Rightarrow> heap \<Rightarrow> ref \<times> heap" where
  "createElement tag namespace h =
     alloc (blank_node\<lparr>HostTypeKey := Element, tagName := tag,
              HostNamespaceKey := (case namespace of None \<Rightarrow> HTML_NAMESPACE | Some ns \<Rightarrow> ns)\<rparr>) h"

definition createText :: "js_value \<Rightarrow> heap \<Rightarrow> ref \<times> heap" where
  "createText content h =
     alloc (blank_node\<lparr>HostTypeKey := Text, HostValueKey := JSString (js_String content)\<rparr>) h"

definition createComment :: "js_value \<Rightarrow> heap \<Rightarrow> ref \<times> heap" where
  "createComment content h = alloc (blank_node\<lparr>HostTypeKey := Comment, HostValueKey := content\<rparr>) h"

definition createFragment :: "js_value \<Rightarrow> heap \<Rightarrow> ref \<times> heap" where
  "createFragment html h = alloc (blank_node\<lparr>HostTypeKey := Raw, HostValueKey := html\<rparr>) h"

definition attachShadow :: "ref \<Rightarrow> heap \<Rightarrow> ref \<times> heap" where
  "attachShadow element h =
     (let (sr, h1) = alloc (blank_node\<lparr>HostTypeKey := ShadowRoot, HostParentKey := Some element\<rparr>) h
      in (sr, modify element (\<lambda>n. n\<lparr>HostShadowRootKey := Some sr\<rparr>) h1))"

definition empty_heap :: heap where
  "empty_heap = \<lparr>nodes = (\<lambda>_. blank_node), next_ref = 0, next_closure = 0\<rparr>"

subsection \<open>Tree mutation\<close>

text \<open>
  \<^verbatim>\<open>insert(node, parent, anchor)\<close>. The detaching step runs only when the node has a
  parent that is not the destination; \<^verbatim>\<open>indexOf\<close> may answer \<open>-1\<close> there, and
  \<^verbatim>\<open>splice(-1, 1)\<close> then removes the last child of the old parent.
\<close>

definition insert_node :: "ref \<Rightarrow> ref \<Rightarrow> ref option \<Rightarrow> heap \<Rightarrow> heap" where
  "insert_node node parent anchor h =
     (let nodeParent = HostParentKey (nodes h node);
          h1 = (case nodeParent of
                  None \<Rightarrow> h
                | Some np \<Rightarrow>
                    if np \<noteq> parent then
                      (let nodeIndex = indexOf (HostChildrenKey (nodes h np)) node
                       in modify np (\<lambda>n. n\<lparr>HostChildrenKey := splice_array (HostChildrenKey n) nodeIndex 1 []\<rparr>) h)
                    else h);
          h2 = modify node (\<lambda>n. n\<lparr>HostParentKey := Some parent\<rparr>) h1;
          anchorIndex = (case anchor of
                           None \<Rightarrow> -1
                         | Some a \<Rightarrow> indexOf (HostChildrenKey (nodes h2 parent)) a)
      in if anchorIndex = -1
         then modify parent (\<lambda>n. n\<lparr>HostChildrenKey := push (HostChildrenKey n) node\<rparr>) h2
         else modify parent (\<lambda>n. n\<lparr>HostChildrenKey := splice_array (HostChildrenKey n) anchorIndex 0 [node]\<rparr>) h2)"

text \<open>\<^verbatim>\<open>remove(node, parent)\<close>: the parent pointer of the node is left as it is.\<close>

definition remove_node :: "ref \<Rightarrow> ref \<Rightarrow> heap \<Rightarrow> heap" where
  "remove_node node parent h =
     (let nodeIndex = indexOf (HostChildrenKey (nodes h parent)) node
      in modify parent (\<lambda>n. n\<lparr>HostChildrenKey := splice_array (HostChildrenKey n) nodeIndex 1 []\<rparr>) h)"

text \<open>\<^verbatim>\<open>cloneNode(node)\<close> hands back its argument.\<close>

definition cloneNode :: "ref \<Rightarrow> heap \<Rightarrow> ref \<times> heap" where
  "cloneNode node h = (node, h)"

text \<open>\<^verbatim>\<open>setText(node, content)\<close>; the text child of an element is a fresh object.\<close>

definition setText :: "ref \<Rightarrow> js_value \<Rightarrow> heap \<Rightarrow> heap" where
  "setText node content h =
     (if HostTypeKey (nodes h node) = Text then modify node (\<lambda>n. n\<lparr>HostValueKey := content\<rparr>) h
      else if HostTypeKey (nodes h node) = Element then
        (let (t, h1) = alloc (blank_node\<lparr>HostTypeKey := Text, HostParentKey := Some node,
                                 HostValueKey := content\<rparr>) h
         in modify node (\<lambda>n. n\<lparr>HostChildrenKey := [t]\<rparr>) h1)
      else h)"

subsection \<open>Attributes\<close>

text \<open>
  An optional \<^verbatim>\<open>namespace\<close> argument is \<^verbatim>\<open>undefined\<close> when left out, otherwise
  \<^verbatim>\<open>null\<close> or a string. \<^verbatim>\<open>getAttribute\<close> and \<^verbatim>\<open>setAttribute\<close> declare the default
  \<^verbatim>\<open>= null\<close>; \<^verbatim>\<open>removeAttribute\<close> declares none.
\<close>

datatype namespace_arg = Undefined | Namespace "string option"

fun default_null :: "namespace_arg \<Rightarrow> string option" where
  "default_null Undefined = None"
| "default_null (Namespace ns) = ns"

text \<open>\<^verbatim>\<open>attr[HostNamespaceKey] !== namespace\<close> for a stored namespace (null or a string).\<close>

fun strict_neq :: "string option \<Rightarrow> namespace_arg \<Rightarrow> bool" where
  "strict_neq stored Undefined = True"
| "strict_neq stored (Namespace ns) = (stored \<noteq> ns)"

definition getAttribute :: "ref \<Rightarrow> string \<Rightarrow> namespace_arg \<Rightarrow> heap \<Rightarrow> js_value" where
  "getAttribute element name namespace_arg h =
     (let namespace = default_null namespace_arg
      in case find (\<lambda>attr. attr_name attr = name \<and> attr_namespace attr = namespace)
                (HostAttributesKey (nodes h element)) of
           None \<Rightarrow> JSNull
         | Some attribute \<Rightarrow> attr_value attribute)"

text \<open>The assignment \<^verbatim>\<open>attribute.value = ...\<close> on the object that \<^verbatim>\<open>find\<close> returned.\<close>

fun update_found :: "('a \<Rightarrow> bool) \<Rightarrow> ('a \<Rightarrow> 'a) \<Rightarrow> 'a list \<Rightarrow> 'a list" where
  "update_found P f [] = []"
| "update_found P f (x # xs) = (if P x then f x # xs else x # update_found P f xs)"

definition setAttribute :: "ref \<Rightarrow> string \<Rightarrow> js_value \<Rightarrow> namespace_arg \<Rightarrow> heap \<Rightarrow> heap" where
  "setAttribute element name val namespace_arg h =
     (let namespace = default_null namespace_arg;
          matches = (\<lambda>attr. attr_name attr = name \<and> attr_namespace attr = namespace)
      in case find matches (HostAttributesKey (nodes h element)) of
           None \<Rightarrow>
             modify element (\<lambda>n. n\<lparr>HostAttributesKey :=
               push (HostAttributesKey n)
                 \<lparr>attr_name = name, attr_namespace = namespace,
                  attr_value = JSString (js_String val)\<rparr>\<rparr>) h
         | Some attribute \<Rightarrow>
             modify element (\<lambda>n. n\<lparr>HostAttributesKey :=
               update_found matches (\<lambda>a. a\<lparr>attr_value := val\<rparr>) (HostAttributesKey n)\<rparr>) h)"

definition removeAttribute :: "ref \<Rightarrow> string \<Rightarrow> namespace_arg \<Rightarrow> heap \<Rightarrow> heap" where
  "removeAttribute element name namespace h =
     modify element (\<lambda>n. n\<lparr>HostAttributesKey :=
       filter (\<lambda>attr. attr_name attr \<noteq> name \<and> strict_neq (attr_namespace attr) namespace)
         (HostAttributesKey n)\<rparr>) h"

text \<open>
  \<^verbatim>\<open>setCSSStyleProperty\<close>. The template literal builds a string; \<^verbatim>\<open>+=\<close> on the stored
  value concatenates strings (a stored non-string is converted first).
\<close>

definition setCSSStyleProperty :: "ref \<Rightarrow> string \<Rightarrow> string \<Rightarrow> bool \<Rightarrow> heap \<Rightarrow> heap" where
  "setCSSStyleProperty element name val important h =
     (let is_style = (\<lambda>attr. attr_name attr = ''style'' \<and> attr_namespace attr = None);
          serializedProperty = name @ '': '' @ val @ (if important then '' !important'' else [])
      in case find is_style (HostAttributesKey (nodes h element)) of
           None \<Rightarrow>
             modify element (\<lambda>n. n\<lparr>HostAttributesKey :=
               push (HostAttributesKey n)
                 \<lparr>attr_name = ''style'', attr_namespace = None,
                  attr_value = JSString serializedProperty\<rparr>\<rparr>) h
         | Some styleAttribute \<Rightarrow>
             modify element (\<lambda>n. n\<lparr>HostAttributesKey :=
               update_found is_style
                 (\<lambda>a. a\<lparr>attr_value := JSString (js_String (attr_value a) @ ''; '' @ serializedProperty)\<rparr>)
                 (HostAttributesKey n)\<rparr>) h)"

text \<open>
  A JavaScript \<^verbatim>\<open>Set\<close> keeps insertion order and holds each element once: a list without
  repetition.
\<close>

definition Set_add :: "'a \<Rightarrow> 'a list \<Rightarrow> 'a list" where
  "Set_add x xs = (if x \<in> set xs then xs else xs @ [x])"

definition Set_delete :: "'a \<Rightarrow> 'a list \<Rightarrow> 'a list" where
  "Set_delete x xs = filter (\<lambda>y. y \<noteq> x) xs"

text \<open>
  \<^verbatim>\<open>getClassList\<close>. The helpers \<^verbatim>\<open>classNameToTokenList\<close> and \<^verbatim>\<open>tokenListToClassName\<close>
  live in \<^verbatim>\<open>./utils/classes\<close> and are parameters here.
\<close>

record class_utils =
  classNameToTokenList :: "js_value \<Rightarrow> string list"
  tokenListToClassName :: "string list \<Rightarrow> string"

definition is_class :: "HostAttribute \<Rightarrow> bool" where
  "is_class attr = (attr_name attr = ''class'' \<and> attr_namespace attr = None)"

definition getClassAttribute :: "ref \<Rightarrow> heap \<Rightarrow> heap" where
  "getClassAttribute element h =
     (case find is_class (HostAttributesKey (nodes h element)) of
        None \<Rightarrow>
          modify element (\<lambda>n. n\<lparr>HostAttributesKey :=
            push (HostAttributesKey n)
              \<lparr>attr_name = ''class'', attr_namespace = None, attr_value = JSString []\<rparr>\<rparr>) h
      | Some classAttribute \<Rightarrow> h)"

definition classList_update ::
  "class_utils \<Rightarrow> (string \<Rightarrow> string list \<Rightarrow> string list) \<Rightarrow> ref \<Rightarrow> string list \<Rightarrow> heap \<Rightarrow> heap" where
  "classList_update u change element names h =
     (let h1 = getClassAttribute element h
      in modify element (\<lambda>n. n\<lparr>HostAttributesKey :=
           update_found is_class
             (\<lambda>a. a\<lparr>attr_value :=
                JSString (tokenListToClassName u (fold change names (classNameToTokenList u (attr_value a))))\<rparr>)
             (HostAttributesKey n)\<rparr>) h1)"

definition classList_add :: "class_utils \<Rightarrow> ref \<Rightarrow> string list \<Rightarrow> heap \<Rightarrow> heap" where
  "classList_add u = classList_update u Set_add"

definition classList_remove :: "class_utils \<Rightarrow> ref \<Rightarrow> string list \<Rightarrow> heap \<Rightarrow> heap" where
  "classList_remove u = classList_update u Set_delete"

subsection \<open>Properties\<close>

text \<open>
  \<^verbatim>\<open>setProperty\<close>. The predicates of \<^verbatim>\<open>@lwc/shared\<close> are parameters, and so is the
  meaning of \<^verbatim>\<open>key in node\<close> and of the assignment \<^verbatim>\<open>node[key] = value\<close>, which depend
  on the key declarations of \<^verbatim>\<open>./types\<close>. The result says whether the
  "unexpected attempt" diagnostic was written.
\<close>

record shared_env =
  isBooleanAttribute :: "string \<Rightarrow> string \<Rightarrow> bool"
  isGlobalHtmlAttribute :: "string \<Rightarrow> bool"
  isAriaAttribute :: "string \<Rightarrow> bool"
  htmlPropertyToAttribute :: "string \<Rightarrow> string"
  key_in_node :: "string \<Rightarrow> host_node \<Rightarrow> bool"
  assign_key :: "string \<Rightarrow> js_value \<Rightarrow> host_node \<Rightarrow> host_node"

definition setProperty :: "shared_env \<Rightarrow> ref \<Rightarrow> string \<Rightarrow> js_value \<Rightarrow> heap \<Rightarrow> bool \<times> heap" where
  "setProperty env node key val h =
     (if key_in_node env key (nodes h node) then (False, modify node (assign_key env key val) h)
      else if HostTypeKey (nodes h node) = Element then
        (let attrName = htmlPropertyToAttribute env key
         in if key = ''innerHTML'' then
              (let (raw, h1) = alloc (blank_node\<lparr>HostTypeKey := Raw, HostParentKey := Some node,
                                         HostValueKey := val\<rparr>) h
               in (False, modify node (\<lambda>n. n\<lparr>HostChildrenKey := [raw]\<rparr>) h1))
            else if isBooleanAttribute env attrName (tagName (nodes h node)) then
              (False, if val = JSBoolean True
                      then setAttribute node attrName (JSString []) Undefined h
                      else removeAttribute node attrName Undefined h)
            else if isGlobalHtmlAttribute env attrName \<or> isAriaAttribute env attrName then
              (False, setAttribute node attrName val Undefined h)
            else if tagName (nodes h node) = ''input'' \<and> attrName = ''value'' then
              (False, if val = JSNull \<or> val = JSUndefined
                      then removeAttribute node ''value'' Undefined h
                      else setAttribute node ''value'' val Undefined h)
            else (True, h))
      else (True, h))"

subsection \<open>Event listeners and dispatch\<close>

text \<open>
  Exceptions are values: a \<^verbatim>\<open>TypeError\<close> of the run time, or the exception a listener
  raises itself. A function that may raise returns \<open>Inl\<close> of the error.
\<close>

datatype js_error = TypeError | ListenerException

text \<open>
  The listener map is a plain object, so the expressions \<^verbatim>\<open>type in map\<close> and
  \<^verbatim>\<open>map[type]\<close> also find the members that every object inherits from
  \<^verbatim>\<open>Object.prototype\<close>; \<open>Object_prototype_names\<close> lists the names that the
  language defines there. Such a member is a function (for \<^verbatim>\<open>__proto__\<close> the prototype
  object): it is truthy, it is not iterable and it has no \<^verbatim>\<open>add\<close> or \<^verbatim>\<open>delete\<close> method.
\<close>

definition Object_prototype_names :: "string list" where
  "Object_prototype_names =
     [''constructor'', ''__defineGetter__'', ''__defineSetter__'', ''hasOwnProperty'',
      ''__lookupGetter__'', ''__lookupSetter__'', ''isPrototypeOf'', ''propertyIsEnumerable'',
      ''toString'', ''valueOf'', ''__proto__'', ''toLocaleString'']"

datatype listeners_entry = NoEntry | Inherited | ListenerSet "listener list"

definition lookup_listeners :: "host_node \<Rightarrow> string \<Rightarrow> listeners_entry" where
  "lookup_listeners n evtype =
     (case HostEventListenersKey n evtype of
        Some s \<Rightarrow> ListenerSet s
      | None \<Rightarrow> if evtype \<in> set Object_prototype_names then Inherited else NoEntry)"

record AddEventListenerOptions =
  capture :: bool
  once :: bool

datatype useCaptureOrOptions = NotGiven | UseCapture bool | WithOptions AddEventListenerOptions

text \<open>
  \<^verbatim>\<open>removeEventListener\<close>: \<^verbatim>\<open>eventListeners.delete(callback)\<close> runs whenever
  \<^verbatim>\<open>map[type]\<close> is truthy, and raises a \<^verbatim>\<open>TypeError\<close> when that is an inherited member.
\<close>

definition removeEventListener :: "ref \<Rightarrow> string \<Rightarrow> listener \<Rightarrow> heap \<Rightarrow> js_error + heap" where
  "removeEventListener node evtype cb h =
     (if HostTypeKey (nodes h node) \<noteq> Element then Inr h
      else case lookup_listeners (nodes h node) evtype of
             NoEntry \<Rightarrow> Inr h
           | Inherited \<Rightarrow> Inl TypeError
           | ListenerSet eventListeners \<Rightarrow>
               Inr (modify node (\<lambda>n. n\<lparr>HostEventListenersKey :=
                      (HostEventListenersKey n)(evtype \<mapsto> Set_delete cb eventListeners)\<rparr>) h))"

text \<open>
  The last three lines of \<^verbatim>\<open>addEventListener\<close>: a new set is stored only when
  \<^verbatim>\<open>type in map\<close> is false; then \<^verbatim>\<open>map[type].add(savedCallback)\<close>, which raises a
  \<^verbatim>\<open>TypeError\<close> when \<^verbatim>\<open>map[type]\<close> is an inherited member.
\<close>

definition register_listener :: "ref \<Rightarrow> string \<Rightarrow> listener \<Rightarrow> heap \<Rightarrow> js_error + heap" where
  "register_listener node evtype savedCallback h =
     (case lookup_listeners (nodes h node) evtype of
        NoEntry \<Rightarrow>
          Inr (modify node (\<lambda>n. n\<lparr>HostEventListenersKey :=
                 (HostEventListenersKey n)(evtype \<mapsto> Set_add savedCallback [])\<rparr>) h)
      | Inherited \<Rightarrow> Inl TypeError
      | ListenerSet s \<Rightarrow>
          Inr (modify node (\<lambda>n. n\<lparr>HostEventListenersKey :=
                 (HostEventListenersKey n)(evtype \<mapsto> Set_add savedCallback s)\<rparr>) h))"

definition addEventListener ::
  "ref \<Rightarrow> string \<Rightarrow> callback \<Rightarrow> useCaptureOrOptions \<Rightarrow> heap \<Rightarrow> js_error + heap" where
  "addEventListener node evtype cb opts h =
     (if HostTypeKey (nodes h node) \<noteq> Element then Inr h
      else case opts of
             NotGiven \<Rightarrow> register_listener node evtype (Plain cb) h
           | UseCapture b \<Rightarrow> if b then Inr h else register_listener node evtype (Plain cb) h
           | WithOptions opt \<Rightarrow>
               if capture opt then Inr h
               else if once opt then
                 register_listener node evtype (OnceWrapper (next_closure h) node evtype cb)
                   (h\<lparr>next_closure := Suc (next_closure h)\<rparr>)
               else register_listener node evtype (Plain cb) h)"

text \<open>The heap after a call that may raise: a call that raised has stored nothing.\<close>

definition after_call :: "heap \<Rightarrow> (heap \<Rightarrow> js_error + heap) \<Rightarrow> heap" where
  "after_call h f = (case f h of Inl e \<Rightarrow> h | Inr h' \<Rightarrow> h')"

text \<open>
  The event is an object of the platform's class \<^verbatim>\<open>Event\<close>, which is not part of the
  repository. \<open>checks_receiver\<close> says whether a method of the event raises a
  \<^verbatim>\<open>TypeError\<close> when it is called on an object that is not the event itself, as the
  methods of the DOM class do.
\<close>

record Event =
  event_type :: string
  composed :: bool
  checks_receiver :: bool

text \<open>
  The state of one \<^verbatim>\<open>dispatchEvent\<close> call: the heap, the two flags of the closure, whether
  the event was marked by \<^verbatim>\<open>preventDefault\<close>, the exception that has been raised, if any,
  and the list of the user listener calls made so far, each with the node being visited.
\<close>

record dispatch_state =
  ds_heap :: heap
  stop :: bool
  stopImmediately :: bool
  defaultPrevented :: bool
  thrown :: "js_error option"
  invoked :: "(ref \<times> callback) list"

text \<open>
  The proxy answers \<^verbatim>\<open>stopPropagation\<close> and \<^verbatim>\<open>stopImmediatePropagation\<close> with the two
  closures of \<^verbatim>\<open>dispatchEvent\<close>. Every other member is read from the event
  (\<^verbatim>\<open>return eventObj[property]\<close>), so \<^verbatim>\<open>eventProxy.preventDefault()\<close> calls the method of
  the event with the proxy as its receiver: a \<^verbatim>\<open>TypeError\<close> where the receiver is checked,
  the mark on the event otherwise.
\<close>

fun perform :: "Event \<Rightarrow> listener_step \<Rightarrow> dispatch_state \<Rightarrow> dispatch_state" where
  "perform ev StopPropagation st = st\<lparr>stop := True\<rparr>"
| "perform ev StopImmediatePropagation st = st\<lparr>stop := True, stopImmediately := True\<rparr>"
| "perform ev PreventDefault st =
     (if checks_receiver ev then st\<lparr>thrown := Some TypeError\<rparr> else st\<lparr>defaultPrevented := True\<rparr>)"
| "perform ev Throw st = st\<lparr>thrown := Some ListenerException\<rparr>"

fun run_steps :: "Event \<Rightarrow> listener_step list \<Rightarrow> dispatch_state \<Rightarrow> dispatch_state" where
  "run_steps ev [] st = st"
| "run_steps ev (s # steps) st =
     (let st1 = perform ev s st
      in if thrown st1 \<noteq> None then st1 else run_steps ev steps st1)"

fun call_callback :: "Event \<Rightarrow> ref \<Rightarrow> callback \<Rightarrow> dispatch_state \<Rightarrow> dispatch_state" where
  "call_callback ev currentNode (Fn i steps) st =
     run_steps ev steps (st\<lparr>invoked := invoked st @ [(currentNode, Fn i steps)]\<rparr>)"

text \<open>
  Calling a stored listener. The wrapper runs \<^verbatim>\<open>try { callback(...) } finally
  { removeEventListener(node, type, savedCallback) }\<close>: the removal runs whether or not the
  callback raised, the exception of the callback stays pending, and an exception of the
  removal takes its place.
\<close>

fun call_listener :: "Event \<Rightarrow> ref \<Rightarrow> listener \<Rightarrow> dispatch_state \<Rightarrow> dispatch_state" where
  "call_listener ev currentNode (Plain cb) st = call_callback ev currentNode cb st"
| "call_listener ev currentNode (OnceWrapper w node evtype cb) st =
     (let st1 = call_callback ev currentNode cb st
      in case removeEventListener node evtype (OnceWrapper w node evtype cb) (ds_heap st1) of
           Inl e \<Rightarrow> st1\<lparr>thrown := Some e\<rparr>
         | Inr h' \<Rightarrow> st1\<lparr>ds_heap := h'\<rparr>)"

text \<open>
  The body of the \<^verbatim>\<open>do\<close> loop up to the step to the parent. \<^verbatim>\<open>for (... of callbacks)\<close>
  raises a \<^verbatim>\<open>TypeError\<close> when \<^verbatim>\<open>callbacks\<close> is an inherited member, and an exception of a
  listener leaves the loop. The only change a listener makes to a listener set is a
  wrapper deleting itself, after it was visited, so the iteration over the live set visits
  the elements the set had when the iteration began.
\<close>

definition run_callbacks :: "Event \<Rightarrow> ref \<Rightarrow> dispatch_state \<Rightarrow> dispatch_state" where
  "run_callbacks event currentNode st =
     (if HostTypeKey (nodes (ds_heap st) currentNode) = Element then
        (case lookup_listeners (nodes (ds_heap st) currentNode) (event_type event) of
           NoEntry \<Rightarrow> st
         | Inherited \<Rightarrow> st\<lparr>thrown := Some TypeError\<rparr>
         | ListenerSet callbacks \<Rightarrow>
             fold (\<lambda>cb s. if thrown s = None \<and> \<not> stopImmediately s
                           then call_listener event currentNode cb s else s)
               callbacks st)
      else st)"

partial_function (option) bubble :: "Event \<Rightarrow> ref \<Rightarrow> dispatch_state \<Rightarrow> dispatch_state option" where
  "bubble event currentNode st =
     (let st1 = run_callbacks event currentNode st
      in if thrown st1 \<noteq> None then Some st1
         else case HostParentKey (nodes (ds_heap st1) currentNode) of
                None \<Rightarrow> Some st1
              | Some p \<Rightarrow>
                  if \<not> stop st1 \<and> (HostTypeKey (nodes (ds_heap st1) p) \<noteq> ShadowRoot \<or> composed event)
                  then bubble event p st1
                  else Some st1)"

text \<open>
  \<^verbatim>\<open>dispatchEvent(target, event)\<close>: \<open>None\<close> when the loop does not end; otherwise the
  final state with \<open>Inr\<close> of the returned boolean, or \<open>Inl\<close> of the exception that
  left the function.
\<close>

definition dispatchEvent ::
  "ref \<Rightarrow> Event \<Rightarrow> heap \<Rightarrow> ((js_error + bool) \<times> dispatch_state) option" where
  "dispatchEvent target event h =
     (let st0 = \<lparr>ds_heap = h, stop = False, stopImmediately = False, defaultPrevented = False,
                 thrown = None, invoked = []\<rparr>
      in if HostTypeKey (nodes h target) \<noteq> Element then Some (Inr True, st0)
         else case bubble event target st0 of
                None \<Rightarrow> None
              | Some st \<Rightarrow> Some (case thrown st of None \<Rightarrow> Inr True | Some e \<Rightarrow> Inl e, st))"

section \<open>Properties of the host tree\<close>

text \<open>
  Single-parent ownership: an entry of a children array is backed by the parent pointer
  of that child, and no array holds a node twice. (The converse is not kept by the code:
  \<^verbatim>\<open>remove\<close> leaves the parent pointer, and a shadow root points to its host without
  being among its children.)
\<close>

definition ownership :: "heap \<Rightarrow> bool" where
  "ownership h = (\<forall>r n. n \<in> set (children_of h r) \<longrightarrow>
                    parent_of h n = Some r \<and> count_list (children_of h r) n = 1)"

text \<open>The parent pointers as a relation from a node to its parent.\<close>

definition parent_rel :: "heap \<Rightarrow> (ref \<times> ref) set" where
  "parent_rel h = {(n, p). parent_of h n = Some p}"

text \<open>
  Where \<^verbatim>\<open>insert\<close> puts the node in the children of the destination: before the first
  occurrence of the anchor, at the end when the anchor is null or absent.
\<close>

definition insert_result :: "ref \<Rightarrow> ref list \<Rightarrow> ref option \<Rightarrow> ref list" where
  "insert_result node cs anchor =
     (case anchor of
        None \<Rightarrow> cs @ [node]
      | Some a \<Rightarrow>
          if a \<in> set cs
          then takeWhile (\<lambda>c. c \<noteq> a) cs @ node # dropWhile (\<lambda>c. c \<noteq> a) cs
          else cs @ [node])"

subsection \<open>Small trees built through the renderer\<close>

text \<open>Three elements: 0 is a \<^verbatim>\<open>div\<close>, 1 a \<^verbatim>\<open>section\<close>, 2 a \<^verbatim>\<open>span\<close>.\<close>

definition three_elements :: heap where
  "three_elements =
     snd (createElement ''span'' None
       (snd (createElement ''section'' None
         (snd (createElement ''div'' None empty_heap)))))"

text \<open>The \<^verbatim>\<open>span\<close> appended to the \<^verbatim>\<open>section\<close>.\<close>

definition attached_tree :: heap where
  "attached_tree = insert_node 2 1 None three_elements"

text \<open>The \<^verbatim>\<open>div\<close> with \<^verbatim>\<open>id="x"\<close> and \<^verbatim>\<open>class="y"\<close>, both without namespace.\<close>

definition two_attributes :: heap where
  "two_attributes =
     setAttribute 0 ''class'' (JSString ''y'') Undefined
       (setAttribute 0 ''id'' (JSString ''x'') Undefined three_elements)"

subsection \<open>Attribute sets\<close>

definition attr_key :: "HostAttribute \<Rightarrow> string \<times> string option" where
  "attr_key a = (attr_name a, attr_namespace a)"

definition attributes_of :: "heap \<Rightarrow> ref \<Rightarrow> HostAttribute list" where
  "attributes_of h e = HostAttributesKey (nodes h e)"

text \<open>At most one attribute per (name, namespace) pair.\<close>

definition unique_attributes :: "heap \<Rightarrow> ref \<Rightarrow> bool" where
  "unique_attributes h e = distinct (map attr_key (attributes_of h e))"

fun is_string :: "js_value \<Rightarrow> bool" where
  "is_string (JSString s) = True"
| "is_string v = False"

text \<open>The operations of the renderer that add or rewrite attributes.\<close>

datatype attr_op =
    SetAttribute string js_value namespace_arg
  | SetCSSStyleProperty string string bool
  | ClassListAdd "string list"
  | ClassListRemove "string list"

fun apply_attr_op :: "class_utils \<Rightarrow> ref \<Rightarrow> attr_op \<Rightarrow> heap \<Rightarrow> heap" where
  "apply_attr_op u e (SetAttribute name val ns) h = setAttribute e name val ns h"
| "apply_attr_op u e (SetCSSStyleProperty name val important) h = setCSSStyleProperty e name val important h"
| "apply_attr_op u e (ClassListAdd names) h = classList_add u e names h"
| "apply_attr_op u e (ClassListRemove names) h = classList_remove u e names h"

definition apply_attr_ops :: "class_utils \<Rightarrow> ref \<Rightarrow> attr_op list \<Rightarrow> heap \<Rightarrow> heap" where
  "apply_attr_ops u e ops h = fold (apply_attr_op u e) ops h"

text \<open>Every stored attribute value is a string.\<close>

definition string_values :: "heap \<Rightarrow> ref \<Rightarrow> bool" where
  "string_values h e = (\<forall>a \<in> set (attributes_of h e). is_string (attr_value a))"

text \<open>An operation whose value argument, if it has one that is stored, is a string.\<close>

fun string_op :: "attr_op \<Rightarrow> bool" where
  "string_op (SetAttribute name val ns) = is_string val"
| "string_op other = True"

section \<open>Template compilation: the diagnostics gate\<close>

text \<open>
  Modelled from the spec: the enumeration \<^verbatim>\<open>DiagnosticLevel\<close>, which
  \<^verbatim>\<open>compileTemplate\<close> imports from \<^verbatim>\<open>@lwc/errors\<close> and whose declaration is missing:
  the severity levels Fatal and Error, and the lower levels Warning and Log. The parser is
  a collaborator; \<^verbatim>\<open>compileTemplate\<close> is modelled from the point where \<^verbatim>\<open>parse\<close> has
  returned \<^verbatim>\<open>{ root, warnings }\<close>.
\<close>

datatype DiagnosticLevel = Fatal | Error | Warning | Log

record CompilerDiagnostic =
  message :: string
  level :: DiagnosticLevel

text \<open>
  The error thrown by the gate, and whatever the later stages (lowering, code
  generation) may raise. These later stages are the parameter \<open>generate_code\<close>.
\<close>

datatype 'e compile_error = TemplateCompilationFailure | LoweringError 'e

text \<open>The \<^verbatim>\<open>for\<close> loop over the warnings: each one is written to the console.\<close>

fun scan_warnings :: "CompilerDiagnostic list \<Rightarrow> string list \<times> bool \<Rightarrow> string list \<times> bool" where
  "scan_warnings [] (console, fatal) = (console, fatal)"
| "scan_warnings (warning # rest) (console, fatal) =
     scan_warnings rest
       (console @ [''Cannot compile: '' @ message warning],
        if level warning = Fatal \<or> level warning = Error then True else fatal)"

definition compileTemplate ::
  "('r \<Rightarrow> 'e + 'c) \<Rightarrow> 'r option \<Rightarrow> CompilerDiagnostic list \<Rightarrow> string list \<times> ('e compile_error + 'c)" where
  "compileTemplate generate_code root warnings =
     (let (console, thrown) =
            (if root = None \<or> warnings \<noteq> [] then
               (let (console, fatal) = scan_warnings warnings ([], root = None)
                in (console, fatal \<or> root = None))
             else ([], False))
      in if thrown then (console, Inl TemplateCompilationFailure)
         else case root of
                None \<Rightarrow> (console, Inl TemplateCompilationFailure)
              | Some r \<Rightarrow> (console, case generate_code r of
                                      Inl e \<Rightarrow> Inl (LoweringError e)
                                    | Inr code \<Rightarrow> Inr code))"

section \<open>Lowering of child attributes and properties\<close>

text \<open>
  The values of the template IR that \<^verbatim>\<open>getChildAttrsOrProps\<close> distinguishes: a literal
  (string or boolean), an identifier or member expression (kept opaque), and any other
  node type, named by its \<^verbatim>\<open>type\<close> string.
\<close>

datatype ir_literal = LString string | LBoolean bool

datatype 'x ir_expression = Literal ir_literal | Identifier 'x | MemberExpression 'x | OtherNode string

datatype ir_node_type = Attribute | Property

record 'x ir_attribute =
  ir_name :: string
  ir_value :: "'x ir_expression"
  ir_type :: ir_node_type

datatype es_key = KeyIdentifier string | KeyLiteral string

datatype 'e es_expression = EsString string | EsBoolean bool | EsDynamic 'e

text \<open>The imported helpers, as parameters.\<close>

record ('x, 'e) lowering_env =
  isValidIdentifier :: "string \<Rightarrow> bool"
  normalizeStyleAttributeValue :: "string \<Rightarrow> string"
  normalizeClassAttributeValue :: "string \<Rightarrow> string"
  expressionIrToEs :: "'x \<Rightarrow> 'e"

text \<open>
  The callback of \<^verbatim>\<open>attrs.map\<close>: \<open>Inl\<close> is the thrown error, \<open>Inr None\<close> the bare
  \<^verbatim>\<open>return\<close>, which \<^verbatim>\<open>filter(Boolean)\<close> drops.
\<close>

definition childAttrOrProp ::
  "('x, 'e) lowering_env \<Rightarrow> 'x ir_attribute \<Rightarrow> string + (es_key \<times> 'e es_expression) option" where
  "childAttrOrProp env a =
     (let name = ir_name a;
          key = (if isValidIdentifier env name then KeyIdentifier name else KeyLiteral name)
      in case ir_value a of
           Literal (LString s) \<Rightarrow>
             if name = ''style'' then Inr (Some (key, EsString (normalizeStyleAttributeValue env s)))
             else if name = ''class'' then
               (let literalValue = normalizeClassAttributeValue env s
                in if literalValue = [] then Inr None else Inr (Some (key, EsString literalValue)))
             else Inr (Some (key, EsString s))
         | Literal (LBoolean b) \<Rightarrow>
             if name = ''class'' then Inr None
             else Inr (Some (key, if ir_type a = Attribute then EsString [] else EsBoolean b))
         | Identifier x \<Rightarrow> Inr (Some (key, EsDynamic (expressionIrToEs env x)))
         | MemberExpression x \<Rightarrow> Inr (Some (key, EsDynamic (expressionIrToEs env x)))
         | OtherNode t \<Rightarrow> Inl (''Unimplemented child attr IR node type: '' @ t))"

fun getChildAttrsOrProps ::
  "('x, 'e) lowering_env \<Rightarrow> 'x ir_attribute list \<Rightarrow> string + (es_key \<times> 'e es_expression) list" where
  "getChildAttrsOrProps env [] = Inr []"
| "getChildAttrsOrProps env (a # attrs) =
     (case childAttrOrProp env a of
        Inl err \<Rightarrow> Inl err
      | Inr p \<Rightarrow>
          (case getChildAttrsOrProps env attrs of
             Inl err \<Rightarrow> Inl err
           | Inr ps \<Rightarrow> Inr (case p of None \<Rightarrow> ps | Some kv \<Rightarrow> kv # ps)))"

text \<open>Helpers that leave their argument alone, for the examples.\<close>

definition plain_lowering_env :: "(string, string) lowering_env" where
  "plain_lowering_env = \<lparr>isValidIdentifier = (\<lambda>_. True), normalizeStyleAttributeValue = (\<lambda>s. s),
     normalizeClassAttributeValue = (\<lambda>s. s), expressionIrToEs = (\<lambda>x. x)\<rparr>"

text \<open>
  A renderer environment for the examples: \<^verbatim>\<open>hidden\<close> is the boolean attribute, no
  string key is a field of a node.
\<close>

definition hidden_env :: shared_env where
  "hidden_env = \<lparr>isBooleanAttribute = (\<lambda>a t. a = ''hidden''), isGlobalHtmlAttribute = (\<lambda>a. a = ''title''),
     isAriaAttribute = (\<lambda>_. False), htmlPropertyToAttribute = (\<lambda>k. k),
     key_in_node = (\<lambda>k n. False), assign_key = (\<lambda>k v n. n)\<rparr>"

section \<open>The synthesized \<^verbatim>\<open>generateMarkup\<close>\<close>

text \<open>
  The statements of the function body that \<^verbatim>\<open>bGenerateMarkup\<close> builds, in the order of
  the template. \<open>ConnectWire\<close> wraps a statement produced by \<^verbatim>\<open>bWireAdaptersPlumbing\<close>
  (from \<^verbatim>\<open>./wire\<close>, a parameter below).
\<close>

datatype render_call = InstanceRender | TmplIdentifier

datatype 'w gm_stmt =
    AttrsDefault
  | PropsDefault
  | FilterProperties "string list" "string list"
  | NewInstance string
  | EstablishContextfulRelationship
  | ConnectWire 'w
  | SetInternals
  | SetIsConnected
  | IfConnectedCallback "'w gm_stmt list"
  | MutationTrackerEnable
  | CallConnectedCallback
  | MutationTrackerDisable
  | DeclareTmplFn render_call
  | YieldOpenTag
  | DeclareHostScopeToken string
  | YieldRenderAttrs
  | YieldTagEnd
  | YieldTmplFn string
  | YieldCloseTag

definition bGenerateMarkup ::
  "string list \<Rightarrow> string list \<Rightarrow> string \<Rightarrow> 'w list \<Rightarrow> render_call \<Rightarrow> 'w gm_stmt list" where
  "bGenerateMarkup publicFields privateFields classIdentifier connectWire renderCall =
     [AttrsDefault, PropsDefault, FilterProperties publicFields privateFields,
      NewInstance classIdentifier, EstablishContextfulRelationship]
     @ map ConnectWire connectWire
     @ [SetInternals, SetIsConnected,
        IfConnectedCallback [MutationTrackerEnable, CallConnectedCallback, MutationTrackerDisable],
        DeclareTmplFn renderCall, YieldOpenTag, DeclareHostScopeToken classIdentifier,
        YieldRenderAttrs, YieldTagEnd, YieldTmplFn classIdentifier, YieldCloseTag]"

record 'a ComponentMetaState =
  hasRenderMethod :: bool
  privateFields :: "string list"
  publicFields :: "string list"
  tmplExplicitImports :: bool
  lwcClassName :: string
  wireAdapters :: "'a list"

datatype ('w, 's) program_stmt =
    Original 's
  | ImportDefault string string
  | ImportNamed "(string \<times> string) list"
  | ExportGenerateMarkup "'w gm_stmt list"

definition runtime_imports :: "(string \<times> string) list" where
  "runtime_imports =
     [(''fallbackTmpl'', ''__fallbackTmpl''), (''filterProperties'', ''__filterProperties''),
      (''mutationTracker'', ''__mutationTracker''), (''renderAttrs'', ''__renderAttrs''),
      (''SYMBOL__SET_INTERNALS'', ''__SYMBOL__SET_INTERNALS''),
      (''establishContextfulRelationship'', ''__establishContextfulRelationship''),
      (''connectContext'', ''__connectContext'')]"

text \<open>
  \<^verbatim>\<open>addGenerateMarkupExport(program, state, filename)\<close>; \<open>path_name\<close> stands for
  \<^verbatim>\<open>pathParse(filename).name\<close>.
\<close>

definition addGenerateMarkupExport ::
  "('a list \<Rightarrow> 'w list) \<Rightarrow> (string \<Rightarrow> string) \<Rightarrow> ('w, 's) program_stmt list \<Rightarrow>
   'a ComponentMetaState \<Rightarrow> string \<Rightarrow> ('w, 's) program_stmt list" where
  "addGenerateMarkupExport bWireAdaptersPlumbing path_name body state filename =
     (let renderCall = (if hasRenderMethod state then InstanceRender else TmplIdentifier);
          body1 = (if \<not> tmplExplicitImports state
                   then ImportDefault ''tmpl'' (''./'' @ path_name filename @ ''.html'') # body
                   else body);
          connectWireAdapterCode =
            (if wireAdapters state \<noteq> [] then bWireAdaptersPlumbing (wireAdapters state) else []);
          body2 = ImportNamed runtime_imports # body1;
          body3 = ImportNamed [(''hasScopedStaticStylesheets'', ''hasScopedStaticStylesheets'')] # body2
      in body3 @ [ExportGenerateMarkup
                    (bGenerateMarkup (publicFields state) (privateFields state) (lwcClassName state)
                       connectWireAdapterCode renderCall)])"

text \<open>
  Running the body: the statements execute in sequence; the block of the \<^verbatim>\<open>if\<close> runs
  when the instance has a \<^verbatim>\<open>connectedCallback\<close>. The result lists the simple statements
  in the order in which they execute.
\<close>

fun exec_stmt :: "bool \<Rightarrow> 'w gm_stmt \<Rightarrow> 'w gm_stmt list" where
  "exec_stmt has_cc (IfConnectedCallback block) =
     (if has_cc then concat (map (exec_stmt has_cc) block) else [])"
| "exec_stmt has_cc s = [s]"

definition run_generateMarkup :: "bool \<Rightarrow> 'w gm_stmt list \<Rightarrow> 'w gm_stmt list" where
  "run_generateMarkup has_cc body = concat (map (exec_stmt has_cc) body)"

text \<open>
  \<open>precedes a b tr\<close>: both steps occur in the run and every occurrence of \<open>a\<close> comes
  strictly before every occurrence of \<open>b\<close>.
\<close>

definition precedes :: "'a \<Rightarrow> 'a \<Rightarrow> 'a list \<Rightarrow> bool" where
  "precedes a b tr = (a \<in> set tr \<and> b \<in> set tr \<and> a \<notin> set (dropWhile (\<lambda>x. x \<noteq> b) tr))"

text \<open>A component with a wire adapter and no \<^verbatim>\<open>render()\<close> override.\<close>

definition wired_state :: "string ComponentMetaState" where
  "wired_state = \<lparr>hasRenderMethod = False, privateFields = [], publicFields = [''label''],
     tmplExplicitImports = False, lwcClassName = ''Cmp'', wireAdapters = [''getRecord'']\<rparr>"

subsection \<open>Inputs for the examples\<close>

definition one_warning :: "CompilerDiagnostic list" where
  "one_warning = [\<lparr>message = ''unused'', level = Warning\<rparr>]"

text \<open>An IR attribute \<^verbatim>\<open>hidden\<close> whose value is the boolean literal \<^verbatim>\<open>false\<close>.\<close>

definition hidden_false :: "string ir_attribute" where
  "hidden_false = \<lparr>ir_name = ''hidden'', ir_value = Literal (LBoolean False), ir_type = Attribute\<rparr>"

definition wired_generateMarkup :: "string gm_stmt list" where
  "wired_generateMarkup = bGenerateMarkup [''label''] [] ''Cmp'' [''getRecord''] TmplIdentifier"

text \<open>What runs after \<^verbatim>\<open>instance.isConnected = true\<close>.\<close>

definition tail_steps :: "bool \<Rightarrow> string \<Rightarrow> render_call \<Rightarrow> 'w gm_stmt list" where
  "tail_steps has_cc cls rc =
     (if has_cc then [MutationTrackerEnable, CallConnectedCallback, MutationTrackerDisable] else [])
     @ [DeclareTmplFn rc, YieldOpenTag, DeclareHostScopeToken cls,
        YieldRenderAttrs, YieldTagEnd, YieldTmplFn cls, YieldCloseTag]"

section \<open>Event propagation as the specification describes it\<close>









text \<open>The listener set stored for an event type on a node (empty when none is stored).\<close>

definition listeners_of :: "heap \<Rightarrow> ref \<Rightarrow> string \<Rightarrow> listener list" where
  "listeners_of h n evtype =
     (case HostEventListenersKey (nodes h n) evtype of None \<Rightarrow> [] | Some ls \<Rightarrow> ls)"

text \<open>
  \<open>parent_chain h n anc\<close>: following the parent pointers from \<open>n\<close> visits exactly
  the nodes \<open>anc\<close>, in this order, and ends at a node without parent.
\<close>

fun parent_chain :: "heap \<Rightarrow> ref \<Rightarrow> ref list \<Rightarrow> bool" where
  "parent_chain h n [] = (parent_of h n = None)"
| "parent_chain h n (p # ps) = (parent_of h n = Some p \<and> parent_chain h p ps)"

text \<open>
  The listener sets that \<^verbatim>\<open>addEventListener\<close> builds: a wrapper sits in the set of the
  node and type it captured.
\<close>

definition wf_listeners :: "heap \<Rightarrow> bool" where
  "wf_listeners h =
     (\<forall>n evtype w n' evtype' cb.
        OnceWrapper w n' evtype' cb \<in> set (listeners_of h n evtype) \<longrightarrow> n' = n \<and> evtype' = evtype)"








subsection \<open>A chain across a shadow root\<close>

text \<open>
  Node 0 is the host \<^verbatim>\<open>div\<close>, node 3 its shadow root, node 1 the \<^verbatim>\<open>section\<close> inside
  the shadow root and node 2 the \<^verbatim>\<open>span\<close> inside the \<^verbatim>\<open>section\<close>. Each of the three
  elements has one \<^verbatim>\<open>click\<close> listener: function 20 on the \<^verbatim>\<open>span\<close>, 10 on the
  \<^verbatim>\<open>section\<close>, 0 on the host.
\<close>

definition shadow_tree :: heap where
  "shadow_tree =
     after_call
       (after_call
         (after_call (insert_node 1 3 None (snd (attachShadow 0 attached_tree)))
            (addEventListener 2 ''click'' (Fn 20 []) NotGiven))
         (addEventListener 1 ''click'' (Fn 10 []) NotGiven))
       (addEventListener 0 ''click'' (Fn 0 []) NotGiven)"

text \<open>A \<^verbatim>\<open>click\<close> event of a platform that checks the receiver of its methods.\<close>

definition click :: "bool \<Rightarrow> Event" where
  "click c = \<lparr>event_type = ''click'', composed = c, checks_receiver = True\<rparr>"

text \<open>
  The \<^verbatim>\<open>span\<close> of \<open>attached_tree\<close> with a \<^verbatim>\<open>click\<close> listener (function 7) that
  calls \<^verbatim>\<open>stopImmediatePropagation\<close>.
\<close>

definition guarded_tree :: heap where
  "guarded_tree =
     after_call attached_tree (addEventListener 2 ''click'' (Fn 7 [StopImmediatePropagation]) NotGiven)"

text \<open>
  \<open>shadow_tree\<close> with a second \<^verbatim>\<open>click\<close> listener on the \<^verbatim>\<open>section\<close> (function 9),
  which raises an exception.
\<close>

definition throwing_tree :: heap where
  "throwing_tree = after_call shadow_tree (addEventListener 1 ''click'' (Fn 9 [Throw]) NotGiven)"

definition once_options :: AddEventListenerOptions where
  "once_options = \<lparr>capture = False, once = True\<rparr>"

subsection \<open>Auxiliary notions for the dispatch loop\<close>

text \<open>What calling a stored listener does to the heap: a wrapper deletes itself.\<close>

fun cleanup :: "listener \<Rightarrow> heap \<Rightarrow> heap" where
  "cleanup (Plain cb) h = h"
| "cleanup (OnceWrapper w node evtype cb) h =
     after_call h (removeEventListener node evtype (OnceWrapper w node evtype cb))"





text \<open>The listener that \<^verbatim>\<open>addEventListener\<close> stores, if it stores one.\<close>

definition saved_listener ::
  "ref \<Rightarrow> string \<Rightarrow> callback \<Rightarrow> useCaptureOrOptions \<Rightarrow> heap \<Rightarrow> listener option" where
  "saved_listener n t cb opts h =
     (if type_of_node h n \<noteq> Element then None
      else case opts of
             NotGiven \<Rightarrow> Some (Plain cb)
           | UseCapture b \<Rightarrow> if b then None else Some (Plain cb)
           | WithOptions opt \<Rightarrow>
               if capture opt then None
               else if once opt then Some (OnceWrapper (next_closure h) n t cb)
               else Some (Plain cb))"

section \<open>Tree mutation: results\<close>

lemma indexOf_notin: "x \<notin> set xs \<Longrightarrow> indexOf xs x = -1"
  by (induction xs) auto

lemma indexOf_nonneg_or_minus1: "indexOf xs x = -1 \<or> 0 \<le> indexOf xs x"
  by (induction xs) (auto simp: Let_def)

lemma indexOf_append_fresh: "x \<notin> set xs \<Longrightarrow> indexOf (xs @ [x]) x = int (length xs)"
  by (induction xs) (auto simp: Let_def)

lemma nodes_modify: "nodes (modify r f h) = (nodes h)(r := f (nodes h r))"
  by (simp add: modify_def)

text \<open>
  C10. \<^verbatim>\<open>cloneNode(n)\<close> returns the reference \<open>n\<close> itself and leaves the heap as it
  was: no node object is allocated (\<open>next_ref\<close> does not move, unlike in
  \<^verbatim>\<open>createText\<close>), and a later mutation through the returned reference, here
  \<^verbatim>\<open>setText\<close>, is the same mutation of the original node.
\<close>

theorem cloneNode_is_identity:
  "fst (cloneNode n h) = n
   \<and> snd (cloneNode n h) = h
   \<and> next_ref (snd (cloneNode n h)) = next_ref h
   \<and> next_ref (snd (createText c h)) = Suc (next_ref h)
   \<and> setText (fst (cloneNode n h)) c (snd (cloneNode n h)) = setText n c h"
  by (simp add: cloneNode_def createText_def alloc_def)

lemma splice_delete_last: "splice_array (xs @ [x]) (int (length xs)) (Suc 0) [] = xs"
  by (simp add: splice_array_def)

lemma indexOf_first: "x \<notin> set ys \<Longrightarrow> indexOf (ys @ x # zs) x = int (length ys)"
  by (induction ys) (auto simp: Let_def)

lemma indexOf_minus1_iff: "indexOf xs x = -1 \<longleftrightarrow> x \<notin> set xs"
proof (induction xs)
  case Nil
  then show ?case by simp
next
  case (Cons y ys)
  then show ?case using indexOf_nonneg_or_minus1[of ys x] by (auto simp: Let_def)
qed

lemma splice_delete_at: "splice_array (ys @ x # zs) (int (length ys)) (Suc 0) [] = ys @ zs"
  by (simp add: splice_array_def)

lemma splice_insert_at: "splice_array (ys @ zs) (int (length ys)) 0 items = ys @ items @ zs"
  by (simp add: splice_array_def)

lemma splice_indexOf_remove1:
  assumes "x \<in> set xs"
  shows "splice_array xs (indexOf xs x) (Suc 0) [] = remove1 x xs"
proof -
  from assms obtain ys zs where xs: "xs = ys @ x # zs" and fresh: "x \<notin> set ys"
    by (auto dest: split_list_first)
  then show ?thesis
    by (simp add: indexOf_first splice_delete_at remove1_append)
qed

lemma takeWhile_first: "a \<notin> set ys \<Longrightarrow> takeWhile (\<lambda>c. c \<noteq> a) (ys @ a # zs) = ys"
  by (induction ys) auto

lemma dropWhile_first: "a \<notin> set ys \<Longrightarrow> dropWhile (\<lambda>c. c \<noteq> a) (ys @ a # zs) = a # zs"
  by (induction ys) auto

lemma splice_indexOf_insert:
  assumes "a \<in> set xs"
  shows "splice_array xs (indexOf xs a) 0 [node] =
         takeWhile (\<lambda>c. c \<noteq> a) xs @ node # dropWhile (\<lambda>c. c \<noteq> a) xs"
proof -
  from assms obtain ys zs where xs: "xs = ys @ a # zs" and fresh: "a \<notin> set ys"
    by (auto dest: split_list_first)
  have tw: "takeWhile (\<lambda>c. c \<noteq> a) xs = ys" "dropWhile (\<lambda>c. c \<noteq> a) xs = a # zs"
    using xs fresh by (simp_all add: takeWhile_first dropWhile_first)
  have "splice_array (ys @ (a # zs)) (int (length ys)) 0 [node] = ys @ [node] @ (a # zs)"
    by (rule splice_insert_at)
  then show ?thesis using xs fresh tw by (simp add: indexOf_first)
qed

text \<open>The children of every node after \<^verbatim>\<open>insert\<close>, and the parent pointers.\<close>

lemma children_insert_node:
  "children_of (insert_node node parent anchor h) r =
     (let detached = (\<lambda>x. case parent_of h node of
                        Some q \<Rightarrow> if q \<noteq> parent \<and> x = q
                                  then splice_array (children_of h q) (indexOf (children_of h q) node) 1 []
                                  else children_of h x
                      | None \<Rightarrow> children_of h x)
      in if r = parent then insert_result node (detached parent) anchor else detached r)"
  by (auto simp: insert_node_def children_of_def parent_of_def Let_def nodes_modify push_def
        insert_result_def indexOf_minus1_iff splice_indexOf_insert split: option.splits)

lemma parent_insert_node:
  "parent_of (insert_node node parent anchor h) n = (if n = node then Some parent else parent_of h n)"
  by (auto simp: insert_node_def children_of_def parent_of_def Let_def nodes_modify
       split: option.splits)

lemma children_remove_node:
  "children_of (remove_node node parent h) parent =
     splice_array (children_of h parent) (indexOf (children_of h parent) node) 1 []"
  by (simp add: remove_node_def children_of_def Let_def nodes_modify)

lemma count_insert_result:
  "count_list (insert_result node cs anchor) n = count_list cs n + (if n = node then 1 else 0)"
proof -
  have "count_list (takeWhile P cs) n + count_list (dropWhile P cs) n = count_list cs n" for P
    by (metis count_list_append takeWhile_dropWhile_id)
  then show ?thesis
    by (auto simp: insert_result_def split: option.splits)
qed

lemma set_insert_result: "set (insert_result node cs anchor) = insert node (set cs)"
proof -
  have "set (takeWhile P cs) \<union> set (dropWhile P cs) = set cs" for P
    by (metis set_append takeWhile_dropWhile_id)
  then show ?thesis
    by (auto simp: insert_result_def split: option.splits)
qed

lemma count_remove1:
  "count_list (remove1 x xs) y = (if x = y \<and> x \<in> set xs then count_list xs y - 1 else count_list xs y)"
  by (induction xs) auto

lemma acyclic_redirect:
  assumes "acyclic r" and "(p, n) \<notin> r\<^sup>*"
  shows "acyclic (insert (n, p) (r - s))"
proof -
  have "acyclic (r - s)" using assms(1) by (rule acyclic_subset) blast
  moreover have "(p, n) \<notin> (r - s)\<^sup>*"
    using assms(2) rtrancl_mono[of "r - s" r] by blast
  ultimately show ?thesis by simp
qed

lemma parent_rel_insert_node:
  "parent_rel (insert_node node parent anchor h) =
     insert (node, parent) (parent_rel h - {(node, p) | p. True})"
  by (auto simp: parent_rel_def parent_insert_node split: if_splits)

subsection \<open>The example trees\<close>

lemmas build_defs = three_elements_def attached_tree_def createElement_def alloc_def empty_heap_def
  insert_node_def Let_def modify_def children_of_def parent_of_def blank_node_def push_def

lemma attached_children: "children_of attached_tree r = (if r = 1 then [2] else [])"
  by (simp add: build_defs)

lemma attached_parent: "parent_of attached_tree n = (if n = 2 then Some 1 else None)"
  by (simp add: build_defs)

lemma attached_ownership: "ownership attached_tree"
  by (simp add: ownership_def attached_children attached_parent)

lemma attached_rel: "parent_rel attached_tree = {(2, 1)}"
  by (auto simp: parent_rel_def attached_parent split: if_splits)

section \<open>Moving nodes\<close>

text \<open>A node without parent pointer is in no children array; inserting it keeps ownership.\<close>

lemma insert_unattached_ownership:
  assumes own: "ownership h" and par: "parent_of h node = None"
  shows "ownership (insert_node node parent anchor h)
       \<and> count_list (children_of (insert_node node parent anchor h) parent) node = 1
       \<and> parent_of (insert_node node parent anchor h) node = Some parent"
proof -
  let ?h' = "insert_node node parent anchor h"
  have nowhere: "node \<notin> set (children_of h r)" for r
    using own par by (auto simp: ownership_def)
  have cp: "children_of ?h' parent = insert_result node (children_of h parent) anchor"
    using par by (simp add: children_insert_node)
  have cr: "children_of ?h' r = children_of h r" if "r \<noteq> parent" for r
    using par that by (simp add: children_insert_node)
  have c1: "count_list (children_of ?h' parent) node = 1"
    using nowhere[of parent] by (simp add: cp count_insert_result count_list_0_iff)
  have "parent_of ?h' n = Some r \<and> count_list (children_of ?h' r) n = 1"
    if mem: "n \<in> set (children_of ?h' r)" for r n
  proof (cases "n = node")
    case True
    then have "r = parent" using mem cr nowhere by (cases "r = parent") auto
    then show ?thesis using True c1 by (simp add: parent_insert_node)
  next
    case False
    have old: "n \<in> set (children_of h r)"
      using mem False cp cr by (cases "r = parent") (auto simp: set_insert_result)
    then have "parent_of h n = Some r" "count_list (children_of h r) n = 1"
      using own by (auto simp: ownership_def)
    moreover have "count_list (children_of ?h' r) n = count_list (children_of h r) n"
      using False cp cr by (cases "r = parent") (auto simp: count_insert_result)
    ultimately show ?thesis using False by (simp add: parent_insert_node)
  qed
  then have "ownership ?h'" unfolding ownership_def by blast
  then show ?thesis using c1 by (simp add: parent_insert_node)
qed

lemma ownership_empty: "ownership empty_heap"
  by (simp add: ownership_def children_of_def empty_heap_def blank_node_def)


text \<open>
  C2, as the code has it. The claim includes the case of a node whose parent already is
  the destination: there the guard \<^verbatim>\<open>nodeParent !== parent\<close> skips the detaching step and
  the node is added a second time (shown after the theorem). For a node
  attached to another parent \<open>q\<close> in a tree with single-parent ownership, \<^verbatim>\<open>insert\<close>
  takes the node out of the children of \<open>q\<close>, sets its parent pointer to the
  destination, and puts it into the children of the destination exactly once; afterwards
  no other children array holds the node and ownership holds for the whole tree. The parent
  relation stays acyclic when it was acyclic and the destination is neither the node nor
  one of its descendants (the code has no check of its own for that).
\<close>

theorem insert_moves_between_parents:
  assumes own: "ownership h"
    and par: "parent_of h node = Some q"
    and att: "node \<in> set (children_of h q)"
    and neq: "q \<noteq> parent"
  shows "children_of (insert_node node parent anchor h) q = remove1 node (children_of h q)
       \<and> parent_of (insert_node node parent anchor h) node = Some parent
       \<and> count_list (children_of (insert_node node parent anchor h) parent) node = 1
       \<and> (\<forall>r. r \<noteq> parent \<longrightarrow> node \<notin> set (children_of (insert_node node parent anchor h) r))
       \<and> ownership (insert_node node parent anchor h)
       \<and> (acyclic (parent_rel h) \<and> (parent, node) \<notin> (parent_rel h)\<^sup>* \<longrightarrow>
            acyclic (parent_rel (insert_node node parent anchor h)))"
proof -
  let ?h' = "insert_node node parent anchor h"
  have once: "count_list (children_of h q) node = 1"
    using own att by (simp add: ownership_def)
  have only_q: "node \<in> set (children_of h r) \<Longrightarrow> r = q" for r
    using own par by (auto simp: ownership_def)
  have fresh: "node \<notin> set (children_of h parent)"
    using only_q neq by blast
  have cq: "children_of ?h' q = remove1 node (children_of h q)"
    using par neq att by (simp add: children_insert_node splice_indexOf_remove1)
  have cp: "children_of ?h' parent = insert_result node (children_of h parent) anchor"
    using par neq by (simp add: children_insert_node)
  have cr: "children_of ?h' r = children_of h r" if "r \<noteq> parent" "r \<noteq> q" for r
    using par that by (simp add: children_insert_node)
  have gone: "node \<notin> set (remove1 node (children_of h q))"
    using once count_remove1[of node "children_of h q" node] att
    by (simp add: count_list_0_iff[symmetric])
  have c3: "count_list (children_of ?h' parent) node = 1"
    using fresh by (simp add: cp count_insert_result count_list_0_iff)
  have c4: "\<forall>r. r \<noteq> parent \<longrightarrow> node \<notin> set (children_of ?h' r)"
  proof (intro allI impI)
    fix r assume "r \<noteq> parent"
    show "node \<notin> set (children_of ?h' r)"
    proof (cases "r = q")
      case True then show ?thesis using cq gone by simp
    next
      case False then show ?thesis using cr[OF \<open>r \<noteq> parent\<close>] only_q by auto
    qed
  qed
  have c5: "ownership ?h'"
    unfolding ownership_def
  proof (intro allI impI)
    fix r n assume mem: "n \<in> set (children_of ?h' r)"
    show "parent_of ?h' n = Some r \<and> count_list (children_of ?h' r) n = 1"
    proof (cases "n = node")
      case True
      then have "r = parent" using c4 mem by blast
      then show ?thesis using True c3 by (simp add: parent_insert_node)
    next
      case False
      have old: "n \<in> set (children_of h r)"
      proof (cases "r = parent")
        case True then show ?thesis using mem False by (simp add: cp set_insert_result)
      next
        case np: False
        show ?thesis
        proof (cases "r = q")
          case True
          then show ?thesis
            using mem cq set_remove1_subset[of node "children_of h q"] by auto
        next
          case False then show ?thesis using mem cr[OF np] by simp
        qed
      qed
      then have p: "parent_of h n = Some r" and c: "count_list (children_of h r) n = 1"
        using own by (auto simp: ownership_def)
      have "count_list (children_of ?h' r) n = count_list (children_of h r) n"
      proof (cases "r = parent")
        case True then show ?thesis using False by (simp add: cp count_insert_result)
      next
        case np: False
        show ?thesis
        proof (cases "r = q")
          case True then show ?thesis using False by (simp add: cq count_remove1)
        next
          case False then show ?thesis using cr[OF np] by simp
        qed
      qed
      then show ?thesis using p c False by (simp add: parent_insert_node)
    qed
  qed
  have c6: "acyclic (parent_rel h) \<and> (parent, node) \<notin> (parent_rel h)\<^sup>* \<longrightarrow> acyclic (parent_rel ?h')"
    unfolding parent_rel_insert_node by (intro impI acyclic_redirect) simp_all
  show ?thesis using cq c3 c4 c5 c6 by (simp add: parent_insert_node)
qed

theorem insert_moves_between_parents_witness:
  "ownership attached_tree
   \<and> parent_of attached_tree 2 = Some 1
   \<and> 2 \<in> set (children_of attached_tree 1)
   \<and> acyclic (parent_rel attached_tree)
   \<and> (0, 2) \<notin> (parent_rel attached_tree)\<^sup>*
   \<and> children_of (insert_node 2 0 None attached_tree) 1 = []
   \<and> parent_of (insert_node 2 0 None attached_tree) 2 = Some 0
   \<and> count_list (children_of (insert_node 2 0 None attached_tree) 0) 2 = 1
   \<and> ownership (insert_node 2 0 None attached_tree)
   \<and> acyclic (parent_rel (insert_node 2 0 None attached_tree))"
proof -
  have own: "ownership attached_tree" by (rule attached_ownership)
  have par: "parent_of attached_tree 2 = Some 1" by (simp add: attached_parent)
  have att: "2 \<in> set (children_of attached_tree 1)" by (simp add: attached_children)
  have neq: "(1::nat) \<noteq> 0" by simp
  have "acyclic ({} :: (ref \<times> ref) set)" by (simp add: acyclic_def)
  then have acyc: "acyclic (parent_rel attached_tree)"
    by (simp add: attached_rel)
  have unreachable: "(0, 2) \<notin> (parent_rel attached_tree)\<^sup>*"
    by (auto simp: attached_rel elim: converse_rtranclE)
  show ?thesis
    using insert_moves_between_parents[OF own par att neq, of None] own par att acyc unreachable
    by (simp add: attached_children)
qed

text \<open>
  The \<^verbatim>\<open>span\<close> is the only child of the \<^verbatim>\<open>section\<close>; inserting it into the
  \<^verbatim>\<open>section\<close> again leaves it there twice.
\<close>

theorem insert_same_parent_duplicates:
  "parent_of attached_tree 2 = Some 1
   \<and> children_of attached_tree 1 = [2]
   \<and> children_of (insert_node 2 1 None attached_tree) 1 = [2, 2]
   \<and> count_list (children_of (insert_node 2 1 None attached_tree) 1) 2 = 2"
  by (simp add: children_insert_node attached_children attached_parent insert_result_def)

text \<open>
  Inserting the \<^verbatim>\<open>section\<close> into its own child, the \<^verbatim>\<open>span\<close>, closes a cycle of
  parent pointers: the code does not look at the ancestors of the destination.
\<close>

lemma insert_into_descendant_cycle:
  "acyclic (parent_rel attached_tree)
   \<and> (2, 1) \<in> (parent_rel attached_tree)\<^sup>*
   \<and> \<not> acyclic (parent_rel (insert_node 1 2 None attached_tree))"
proof -
  have "acyclic ({} :: (ref \<times> ref) set)" by (simp add: acyclic_def)
  then have a: "acyclic (parent_rel attached_tree)" by (simp add: attached_rel)
  have b: "(2, 1) \<in> (parent_rel attached_tree)\<^sup>*" by (auto simp: attached_rel)
  let ?r = "parent_rel (insert_node 1 2 None attached_tree)"
  have "(1, 2) \<in> ?r" "(2, 1) \<in> ?r"
    by (simp_all add: parent_rel_def parent_insert_node attached_parent)
  then have "(1, 1) \<in> ?r\<^sup>+" by (meson trancl.simps)
  then have "\<not> acyclic ?r" unfolding acyclic_def by blast
  then show ?thesis using a b by simp
qed

text \<open>
  C8. For a node that is not among the children of \<open>parent\<close>,
  \<^verbatim>\<open>insert(node, parent, null)\<close> followed by \<^verbatim>\<open>remove(node, parent)\<close> gives back the
  children sequence of \<open>parent\<close>: the same references in the same order.
\<close>

theorem insert_then_remove_restores:
  assumes "node \<notin> set (children_of h parent)"
  shows "children_of (remove_node node parent (insert_node node parent None h)) parent
         = children_of h parent"
proof -
  have "children_of (insert_node node parent None h) parent = children_of h parent @ [node]"
    by (auto simp: children_insert_node insert_result_def split: option.splits)
  then show ?thesis
    using assms by (simp add: children_remove_node indexOf_append_fresh splice_delete_last)
qed

theorem insert_then_remove_restores_witness:
  "0 \<notin> set (children_of attached_tree 1)
   \<and> children_of (insert_node 0 1 None attached_tree) 1 = [2, 0]
   \<and> children_of (remove_node 0 1 (insert_node 0 1 None attached_tree)) 1 = [2]"
proof -
  have fresh: "0 \<notin> set (children_of attached_tree 1)" by (simp add: attached_children)
  show ?thesis
    using insert_then_remove_restores[OF fresh] fresh
    by (simp add: attached_children attached_parent children_insert_node insert_result_def)
qed

section \<open>Attributes\<close>

lemma two_attributes_list:
  "HostAttributesKey (nodes two_attributes 0) =
     [\<lparr>attr_name = ''id'', attr_namespace = None, attr_value = JSString ''x''\<rparr>,
      \<lparr>attr_name = ''class'', attr_namespace = None, attr_value = JSString ''y''\<rparr>]"
  by (simp add: two_attributes_def setAttribute_def build_defs)

text \<open>
  C1 at a concrete element. The \<^verbatim>\<open>div\<close> carries \<^verbatim>\<open>id="x"\<close> and \<^verbatim>\<open>class="y"\<close>, both
  with the null namespace, and \<^verbatim>\<open>getAttribute\<close> finds both. After
  \<^verbatim>\<open>removeAttribute(div, "class", null)\<close> the attribute list is empty: the filter keeps an
  attribute only if its name differs and its namespace differs, so \<^verbatim>\<open>id\<close>, which shares
  the namespace, is dropped as well.
\<close>

theorem removeAttribute_drops_same_namespace:
  "getAttribute 0 ''id'' (Namespace None) two_attributes = JSString ''x''
   \<and> getAttribute 0 ''class'' (Namespace None) two_attributes = JSString ''y''
   \<and> HostAttributesKey (nodes (removeAttribute 0 ''class'' (Namespace None) two_attributes) 0) = []
   \<and> getAttribute 0 ''id'' (Namespace None)
        (removeAttribute 0 ''class'' (Namespace None) two_attributes) = JSNull"
  by (simp add: getAttribute_def removeAttribute_def nodes_modify two_attributes_list)

lemma attributes_modify:
  "attributes_of (modify e f h) e' = (if e' = e then HostAttributesKey (f (nodes h e)) else attributes_of h e')"
  by (simp add: attributes_of_def modify_def)

lemma find_None_key:
  "find (\<lambda>a. attr_name a = n \<and> attr_namespace a = ns) xs = None \<Longrightarrow> (n, ns) \<notin> attr_key ` set xs"
  by (auto simp: find_None_iff attr_key_def)

lemma map_key_update_found:
  "(\<And>a. attr_key (f a) = attr_key a) \<Longrightarrow> map attr_key (update_found P f xs) = map attr_key xs"
  by (induction xs) auto

lemma unique_setAttribute:
  "unique_attributes h e \<Longrightarrow> unique_attributes (setAttribute e' name val ns h) e"
  by (auto simp: unique_attributes_def setAttribute_def Let_def attributes_modify push_def
        map_key_update_found attr_key_def find_None_iff attributes_of_def[symmetric]
      split: option.splits)

lemma unique_setCSSStyleProperty:
  "unique_attributes h e \<Longrightarrow> unique_attributes (setCSSStyleProperty e' name val important h) e"
  by (auto simp: unique_attributes_def setCSSStyleProperty_def Let_def attributes_modify push_def
        map_key_update_found attr_key_def find_None_iff attributes_of_def[symmetric]
      split: option.splits)

lemma unique_getClassAttribute:
  "unique_attributes h e \<Longrightarrow> unique_attributes (getClassAttribute e' h) e"
  by (auto simp: unique_attributes_def getClassAttribute_def attributes_modify push_def is_class_def
        attr_key_def find_None_iff attributes_of_def[symmetric]
      split: option.splits)

lemma unique_classList_update:
  "unique_attributes h e \<Longrightarrow> unique_attributes (classList_update u change e' names h) e"
  using unique_getClassAttribute[of h e e']
  by (auto simp: unique_attributes_def classList_update_def Let_def attributes_modify
        map_key_update_found attr_key_def attributes_of_def[symmetric])

lemma unique_apply_attr_op:
  "unique_attributes h e \<Longrightarrow> unique_attributes (apply_attr_op u e' op h) e"
  by (cases op)
     (simp_all add: unique_setAttribute unique_setCSSStyleProperty classList_add_def
        classList_remove_def unique_classList_update)

lemma unique_apply_attr_ops:
  "unique_attributes h e \<Longrightarrow> unique_attributes (apply_attr_ops u e ops h) e"
  unfolding apply_attr_ops_def
  by (induction ops arbitrary: h) (simp_all add: unique_apply_attr_op)

lemma set_update_found: "set (update_found P f xs) \<subseteq> set xs \<union> f ` set xs"
  by (induction xs) auto

lemma strings_update_found:
  assumes "\<forall>a \<in> set xs. is_string (attr_value a)" and "\<And>a. is_string (attr_value (f a))"
  shows "\<forall>a \<in> set (update_found P f xs). is_string (attr_value a)"
  using assms set_update_found[of P f xs] by auto

lemma string_values_setAttribute:
  assumes "string_values h e" and "is_string val"
  shows "string_values (setAttribute e' name val ns h) e"
proof (cases "e = e'")
  case False
  then show ?thesis using assms(1)
    by (simp add: string_values_def setAttribute_def Let_def attributes_modify split: option.splits)
next
  case True
  have old: "\<forall>a \<in> set (HostAttributesKey (nodes h e')). is_string (attr_value a)"
    using assms(1) True by (simp add: string_values_def attributes_of_def)
  have upd: "\<forall>a \<in> set (update_found P (\<lambda>a. a\<lparr>attr_value := val\<rparr>) (HostAttributesKey (nodes h e'))).
               is_string (attr_value a)" for P
    using old assms(2) by (intro strings_update_found) simp_all
  show ?thesis using True old upd
    by (auto simp: string_values_def setAttribute_def Let_def attributes_modify push_def
          split: option.splits)
qed

lemma string_values_setCSSStyleProperty:
  assumes "string_values h e"
  shows "string_values (setCSSStyleProperty e' name val important h) e"
proof (cases "e = e'")
  case False
  then show ?thesis using assms
    by (simp add: string_values_def setCSSStyleProperty_def Let_def attributes_modify split: option.splits)
next
  case True
  have old: "\<forall>a \<in> set (HostAttributesKey (nodes h e')). is_string (attr_value a)"
    using assms True by (simp add: string_values_def attributes_of_def)
  have upd: "\<forall>a \<in> set (update_found P (\<lambda>a. a\<lparr>attr_value := JSString (g a)\<rparr>) (HostAttributesKey (nodes h e'))).
               is_string (attr_value a)" for P g
    using old by (intro strings_update_found) simp_all
  show ?thesis using True old upd
    by (auto simp: string_values_def setCSSStyleProperty_def Let_def attributes_modify push_def
          split: option.splits)
qed

lemma string_values_classList_update:
  assumes "string_values h e"
  shows "string_values (classList_update u change e' names h) e"
proof -
  let ?h1 = "getClassAttribute e' h"
  have s1: "string_values ?h1 e"
    using assms
    by (auto simp: string_values_def getClassAttribute_def attributes_modify push_def
          attributes_of_def[symmetric] split: option.splits)
  show ?thesis
  proof (cases "e = e'")
    case False
    then show ?thesis using s1
      by (simp add: string_values_def classList_update_def Let_def attributes_modify)
  next
    case True
    have old: "\<forall>a \<in> set (HostAttributesKey (nodes ?h1 e')). is_string (attr_value a)"
      using s1 True by (simp add: string_values_def attributes_of_def)
    have upd: "\<forall>a \<in> set (update_found P (\<lambda>a. a\<lparr>attr_value := JSString (g a)\<rparr>) (HostAttributesKey (nodes ?h1 e'))).
                 is_string (attr_value a)" for P g
      using old by (intro strings_update_found) simp_all
    show ?thesis using True upd
      by (simp add: string_values_def classList_update_def Let_def attributes_modify)
  qed
qed

lemma string_values_apply_attr_ops:
  "string_values h e \<Longrightarrow> \<forall>op \<in> set ops. string_op op \<Longrightarrow> string_values (apply_attr_ops u e ops h) e"
  unfolding apply_attr_ops_def
proof (induction ops arbitrary: h)
  case Nil
  then show ?case by simp
next
  case (Cons op ops)
  have "string_values (apply_attr_op u e op h) e"
    using Cons.prems
    by (cases op)
       (simp_all add: string_values_setAttribute string_values_setCSSStyleProperty
          classList_add_def classList_remove_def string_values_classList_update)
  then show ?case using Cons by simp
qed

lemma two_attributes_of:
  "attributes_of two_attributes 0 =
     [\<lparr>attr_name = ''id'', attr_namespace = None, attr_value = JSString ''x''\<rparr>,
      \<lparr>attr_name = ''class'', attr_namespace = None, attr_value = JSString ''y''\<rparr>]"
  by (simp add: attributes_of_def two_attributes_list)

text \<open>
  C9 at a concrete element. The uniqueness half of the claim holds
  (\<open>unique_apply_attr_ops\<close>), and the stored values are strings as long as
  \<^verbatim>\<open>setAttribute\<close> is given strings (\<open>string_values_apply_attr_ops\<close>). With another
  value the second half fails: \<^verbatim>\<open>setAttribute\<close> applies
  \<^verbatim>\<open>String(value)\<close> when it creates an attribute (\<^verbatim>\<open>title\<close> below is stored as
  \<^verbatim>\<open>"true"\<close>) and stores the argument as it is when the attribute exists (\<^verbatim>\<open>id\<close>
  below holds the boolean \<^verbatim>\<open>true\<close>). \<^verbatim>\<open>setProperty\<close>, whose value is untyped, forwards
  to the same path.
\<close>

theorem setAttribute_update_stores_raw_value:
  "attributes_of (apply_attr_ops u 0 [SetAttribute ''title'' (JSBoolean True) Undefined] two_attributes) 0
     = attributes_of two_attributes 0
       @ [\<lparr>attr_name = ''title'', attr_namespace = None, attr_value = JSString ''true''\<rparr>]
   \<and> attributes_of (apply_attr_ops u 0 [SetAttribute ''id'' (JSBoolean True) Undefined] two_attributes) 0
     = [\<lparr>attr_name = ''id'', attr_namespace = None, attr_value = JSBoolean True\<rparr>,
        \<lparr>attr_name = ''class'', attr_namespace = None, attr_value = JSString ''y''\<rparr>]
   \<and> \<not> is_string (getAttribute 0 ''id'' Undefined
          (apply_attr_ops u 0 [SetAttribute ''id'' (JSBoolean True) Undefined] two_attributes))
   \<and> attributes_of (snd (setProperty hidden_env 0 ''title'' (JSBoolean True)
          (setAttribute 0 ''title'' (JSString ''a'') Undefined three_elements))) 0
     = [\<lparr>attr_name = ''title'', attr_namespace = None, attr_value = JSBoolean True\<rparr>]"
proof -
  have via_setProperty:
    "attributes_of (snd (setProperty hidden_env 0 ''title'' (JSBoolean True)
          (setAttribute 0 ''title'' (JSString ''a'') Undefined three_elements))) 0
     = [\<lparr>attr_name = ''title'', attr_namespace = None, attr_value = JSBoolean True\<rparr>]"
    by (simp add: setProperty_def hidden_env_def setAttribute_def attributes_of_def build_defs)
  show ?thesis
    using two_attributes_of via_setProperty
    by (simp add: apply_attr_ops_def setAttribute_def getAttribute_def attributes_of_def
          nodes_modify push_def)
qed

section \<open>Boolean literals\<close>

lemma find_update_found:
  "find P xs = Some x \<Longrightarrow> P (f x) \<Longrightarrow> find P (update_found P f xs) = Some (f x)"
  by (induction xs) (auto split: if_splits)

lemma find_append_new: "find P xs = None \<Longrightarrow> P y \<Longrightarrow> find P (xs @ [y]) = Some y"
  by (induction xs) (auto split: if_splits)

lemma find_filter_excluded: "(\<And>x. P x \<Longrightarrow> \<not> Q x) \<Longrightarrow> find P (filter Q xs) = None"
  by (auto simp: find_None_iff)

lemma getAttribute_after_set_empty:
  "getAttribute e name ns (setAttribute e name (JSString []) ns h) = JSString []"
proof -
  let ?P = "\<lambda>attr. attr_name attr = name \<and> attr_namespace attr = default_null ns"
  show ?thesis
  proof (cases "find ?P (HostAttributesKey (nodes h e))")
    case None
    then show ?thesis
      by (simp add: getAttribute_def setAttribute_def Let_def nodes_modify push_def find_append_new)
  next
    case (Some x)
    have "find ?P (update_found ?P (\<lambda>a. a\<lparr>attr_value := JSString []\<rparr>) (HostAttributesKey (nodes h e)))
            = Some (x\<lparr>attr_value := JSString []\<rparr>)"
      using Some by (intro find_update_found) (auto simp: find_Some_iff)
    with Some show ?thesis
      by (simp add: getAttribute_def setAttribute_def Let_def nodes_modify)
  qed
qed

lemma getAttribute_after_remove_undefined:
  "getAttribute e name ns (removeAttribute e name Undefined h) = JSNull"
proof -
  have "find (\<lambda>attr. attr_name attr = name \<and> attr_namespace attr = default_null ns)
          (filter (\<lambda>attr. attr_name attr \<noteq> name) (HostAttributesKey (nodes h e))) = None"
    by (rule find_filter_excluded) simp
  then show ?thesis
    by (simp add: getAttribute_def removeAttribute_def Let_def nodes_modify)
qed

text \<open>
  C3, as the code has it. For an attribute or property whose value is a boolean literal,
  \<^verbatim>\<open>getChildAttrsOrProps\<close> omits \<^verbatim>\<open>class\<close>, gives an IR attribute the empty string
  whichever boolean the literal is, and gives an IR property the boolean itself; the
  string \<^verbatim>\<open>"false"\<close> is never produced. Absence for \<^verbatim>\<open>false\<close> is what the renderer
  does at run time: \<^verbatim>\<open>setProperty\<close> on a boolean attribute stores the empty string for
  \<^verbatim>\<open>true\<close> and removes the attribute for every other value.
\<close>

theorem boolean_literal_rendering:
  assumes lit: "ir_value a = Literal (LBoolean b)"
    and el: "HostTypeKey (nodes h node) = Element"
    and nokey: "\<not> key_in_node env key (nodes h node)" "key \<noteq> ''innerHTML''"
    and boolattr: "isBooleanAttribute env (htmlPropertyToAttribute env key) (tagName (nodes h node))"
  shows "getChildAttrsOrProps lenv [a] =
           Inr (if ir_name a = ''class'' then []
                else [(if isValidIdentifier lenv (ir_name a) then KeyIdentifier (ir_name a)
                       else KeyLiteral (ir_name a),
                       if ir_type a = Attribute then EsString [] else EsBoolean b)])
       \<and> getChildAttrsOrProps lenv [a] \<noteq>
           Inr [(if isValidIdentifier lenv (ir_name a) then KeyIdentifier (ir_name a)
                 else KeyLiteral (ir_name a), EsString ''false'')]
       \<and> getAttribute node (htmlPropertyToAttribute env key) Undefined
            (snd (setProperty env node key (JSBoolean True) h)) = JSString []
       \<and> (\<forall>v. v \<noteq> JSBoolean True \<longrightarrow>
            getAttribute node (htmlPropertyToAttribute env key) Undefined
              (snd (setProperty env node key v h)) = JSNull)"
  using assms
  by (auto simp: childAttrOrProp_def Let_def setProperty_def getAttribute_after_set_empty
        getAttribute_after_remove_undefined)

text \<open>
  The claim says that a boolean literal \<^verbatim>\<open>false\<close> renders as absence. Lowering the
  attribute \<^verbatim>\<open>hidden\<close> with the literal \<^verbatim>\<open>false\<close> yields the entry
  \<^verbatim>\<open>hidden: ""\<close>, the presence marker.
\<close>

theorem false_attribute_literal_is_present:
  "getChildAttrsOrProps plain_lowering_env [hidden_false] = Inr [(KeyIdentifier ''hidden'', EsString [])]"
  by (simp add: childAttrOrProp_def hidden_false_def plain_lowering_env_def)

theorem boolean_literal_rendering_witness:
  "ir_value hidden_false = Literal (LBoolean False)
   \<and> HostTypeKey (nodes three_elements 0) = Element
   \<and> getChildAttrsOrProps plain_lowering_env [hidden_false] = Inr [(KeyIdentifier ''hidden'', EsString [])]
   \<and> getAttribute 0 ''hidden'' Undefined
        (snd (setProperty hidden_env 0 ''hidden'' (JSBoolean True) three_elements)) = JSString []
   \<and> getAttribute 0 ''hidden'' Undefined
        (snd (setProperty hidden_env 0 ''hidden'' (JSBoolean False)
           (snd (setProperty hidden_env 0 ''hidden'' (JSBoolean True) three_elements)))) = JSNull"
proof -
  have lit: "ir_value hidden_false = Literal (LBoolean False)" by (simp add: hidden_false_def)
  have el: "HostTypeKey (nodes three_elements 0) = Element" by (simp add: build_defs)
  let ?h1 = "snd (setProperty hidden_env 0 ''hidden'' (JSBoolean True) three_elements)"
  have el1: "HostTypeKey (nodes ?h1 0) = Element"
    by (simp add: setProperty_def hidden_env_def setAttribute_def build_defs split: option.splits)
  have nokey: "\<not> key_in_node hidden_env ''hidden'' n" "''hidden'' \<noteq> ''innerHTML''" for n
    by (simp_all add: hidden_env_def)
  have ba: "isBooleanAttribute hidden_env (htmlPropertyToAttribute hidden_env ''hidden'') t" for t
    by (simp add: hidden_env_def)
  have same: "htmlPropertyToAttribute hidden_env ''hidden'' = ''hidden''"
    by (simp add: hidden_env_def)
  show ?thesis
    using boolean_literal_rendering[OF lit el nokey ba, of plain_lowering_env]
      boolean_literal_rendering[OF lit el1 nokey ba, of plain_lowering_env] lit el
    by (simp add: same plain_lowering_env_def hidden_false_def)
qed

section \<open>The diagnostics gate\<close>

lemma scan_warnings_result:
  "scan_warnings ws (console, fatal) =
     (console @ map (\<lambda>w. ''Cannot compile: '' @ message w) ws,
      fatal \<or> (\<exists>w \<in> set ws. level w = Fatal \<or> level w = Error))"
  by (induction ws arbitrary: console fatal) auto

text \<open>
  C7. \<^verbatim>\<open>compileTemplate\<close> throws the compilation-failure error exactly when the root is
  null or some warning has level Fatal or Error. Every warning is written to the console,
  and with a root and only lower levels the result is that of the later stages.
\<close>

theorem compileTemplate_fails_iff:
  "(snd (compileTemplate generate_code root warnings) = Inl TemplateCompilationFailure)
     = (root = None \<or> (\<exists>w \<in> set warnings. level w = Fatal \<or> level w = Error))
   \<and> fst (compileTemplate generate_code root warnings)
       = map (\<lambda>w. ''Cannot compile: '' @ message w) warnings
   \<and> (\<forall>r. root = Some r \<and> (\<forall>w \<in> set warnings. level w \<noteq> Fatal \<and> level w \<noteq> Error) \<longrightarrow>
        snd (compileTemplate generate_code root warnings)
          = (case generate_code r of Inl e \<Rightarrow> Inl (LoweringError e) | Inr code \<Rightarrow> Inr code))"
  by (cases root; cases warnings)
     (auto simp: compileTemplate_def scan_warnings_result Let_def split: sum.splits)

theorem compileTemplate_fails_iff_witness:
  "compileTemplate (\<lambda>r::nat. (Inr ''code'' :: nat + string)) (Some 0) one_warning
     = ([''Cannot compile: unused''], Inr ''code'')
   \<and> compileTemplate (\<lambda>r::nat. (Inr ''code'' :: nat + string)) (Some 0)
        [\<lparr>message = ''bad'', level = Error\<rparr>]
     = ([''Cannot compile: bad''], Inl TemplateCompilationFailure)"
  using compileTemplate_fails_iff[of "\<lambda>r::nat. (Inr ''code'' :: nat + string)" "Some 0" one_warning]
    compileTemplate_fails_iff[of "\<lambda>r::nat. (Inr ''code'' :: nat + string)" "Some 0" "[\<lparr>message = ''bad'', level = Error\<rparr>]"]
  by (simp add: one_warning_def prod_eq_iff)

section \<open>Order of the steps of \<^verbatim>\<open>generateMarkup\<close>\<close>

lemma precedes_split:
  assumes "tr = pre @ b # post" "a \<in> set pre" "b \<notin> set pre" "a \<notin> set (b # post)"
  shows "precedes a b tr"
proof -
  have "dropWhile (\<lambda>x. x \<noteq> b) (pre @ b # post) = b # post"
    using assms(3) by (induction pre) auto
  then show ?thesis using assms by (simp add: precedes_def)
qed

lemma run_bGenerateMarkup:
  "run_generateMarkup has_cc (bGenerateMarkup pub priv cls ws rc) =
     [AttrsDefault, PropsDefault, FilterProperties pub priv, NewInstance cls,
      EstablishContextfulRelationship]
     @ map ConnectWire ws
     @ [SetInternals, SetIsConnected]
     @ tail_steps has_cc cls rc"
proof -
  have "concat (map (exec_stmt has_cc) (map ConnectWire ws)) = map ConnectWire ws"
    by (induction ws) auto
  then show ?thesis
    by (simp add: run_generateMarkup_def bGenerateMarkup_def tail_steps_def)
qed

lemma last_addGenerateMarkupExport:
  "last (addGenerateMarkupExport plumbing path_name body state filename) =
     ExportGenerateMarkup (bGenerateMarkup (publicFields state) (privateFields state) (lwcClassName state)
        (if wireAdapters state \<noteq> [] then plumbing (wireAdapters state) else [])
        (if hasRenderMethod state then InstanceRender else TmplIdentifier))"
  by (simp add: addGenerateMarkupExport_def Let_def)

text \<open>
  C4. In every run of the \<^verbatim>\<open>generateMarkup\<close> that \<^verbatim>\<open>addGenerateMarkupExport\<close> adds
  to the program: the context relationship is established before every wire statement,
  and every wire statement runs before the internal state is set; when the instance has
  a \<^verbatim>\<open>connectedCallback\<close> it runs between enabling and disabling the mutation tracker,
  before \<^verbatim>\<open>tmplFn\<close> is computed and before the template function is delegated to; the
  opening tag and the host attributes are yielded before the template content.
\<close>

theorem generateMarkup_step_order:
  assumes prog: "last (addGenerateMarkupExport plumbing path_name body state filename)
                   = ExportGenerateMarkup gm"
    and tr: "tr = run_generateMarkup has_cc gm"
  shows "precedes EstablishContextfulRelationship SetInternals tr
       \<and> (\<forall>w \<in> set (if wireAdapters state \<noteq> [] then plumbing (wireAdapters state) else []).
             precedes EstablishContextfulRelationship (ConnectWire w) tr
             \<and> precedes (ConnectWire w) SetInternals tr)
       \<and> (has_cc \<longrightarrow>
             precedes SetInternals MutationTrackerEnable tr
             \<and> precedes MutationTrackerEnable CallConnectedCallback tr
             \<and> precedes CallConnectedCallback MutationTrackerDisable tr
             \<and> precedes MutationTrackerDisable (YieldTmplFn (lwcClassName state)) tr
             \<and> precedes CallConnectedCallback (YieldTmplFn (lwcClassName state)) tr
             \<and> precedes CallConnectedCallback
                  (DeclareTmplFn (if hasRenderMethod state then InstanceRender else TmplIdentifier)) tr)
       \<and> (\<not> has_cc \<longrightarrow> CallConnectedCallback \<notin> set tr)
       \<and> precedes YieldOpenTag YieldRenderAttrs tr
       \<and> precedes YieldRenderAttrs (YieldTmplFn (lwcClassName state)) tr
       \<and> precedes YieldOpenTag (YieldTmplFn (lwcClassName state)) tr"
proof -
  let ?ws = "if wireAdapters state \<noteq> [] then plumbing (wireAdapters state) else []"
  let ?rc = "if hasRenderMethod state then InstanceRender else TmplIdentifier"
  let ?cls = "lwcClassName state"
  let ?head = "[AttrsDefault, PropsDefault, FilterProperties (publicFields state) (privateFields state),
                NewInstance ?cls, EstablishContextfulRelationship]"
  have gm: "gm = bGenerateMarkup (publicFields state) (privateFields state) ?cls ?ws ?rc"
    using prog by (simp add: last_addGenerateMarkupExport)
  have tr_eq: "tr = ?head @ map ConnectWire ?ws @ [SetInternals, SetIsConnected] @ tail_steps has_cc ?cls ?rc"
    unfolding tr gm by (rule run_bGenerateMarkup)
  have p1: "precedes EstablishContextfulRelationship SetInternals tr"
    by (rule precedes_split[where pre = "?head @ map ConnectWire ?ws"
          and post = "SetIsConnected # tail_steps has_cc ?cls ?rc"])
       (auto simp: tr_eq tail_steps_def)
  have p2: "precedes EstablishContextfulRelationship (ConnectWire w) tr
            \<and> precedes (ConnectWire w) SetInternals tr" if w: "w \<in> set ?ws" for w
  proof
    from w obtain ys zs where ws: "?ws = ys @ w # zs" and first: "w \<notin> set ys"
      by (auto dest: split_list_first)
    show "precedes EstablishContextfulRelationship (ConnectWire w) tr"
      by (rule precedes_split[where pre = "?head @ map ConnectWire ys"
            and post = "map ConnectWire zs @ [SetInternals, SetIsConnected] @ tail_steps has_cc ?cls ?rc"])
         (use first in \<open>auto simp: tr_eq ws tail_steps_def\<close>)
    show "precedes (ConnectWire w) SetInternals tr"
      by (rule precedes_split[where pre = "?head @ map ConnectWire ?ws"
            and post = "SetIsConnected # tail_steps has_cc ?cls ?rc"])
         (use w in \<open>auto simp: tr_eq tail_steps_def\<close>)
  qed
  have p3: "precedes SetInternals MutationTrackerEnable tr
             \<and> precedes MutationTrackerEnable CallConnectedCallback tr
             \<and> precedes CallConnectedCallback MutationTrackerDisable tr
             \<and> precedes MutationTrackerDisable (YieldTmplFn ?cls) tr
             \<and> precedes CallConnectedCallback (YieldTmplFn ?cls) tr
             \<and> precedes CallConnectedCallback (DeclareTmplFn ?rc) tr" if has_cc
  proof -
    let ?pre = "?head @ map ConnectWire ?ws @ [SetInternals, SetIsConnected]"
    let ?rest = "[DeclareTmplFn ?rc, YieldOpenTag, DeclareHostScopeToken ?cls,
                  YieldRenderAttrs, YieldTagEnd, YieldTmplFn ?cls, YieldCloseTag]"
    have t: "tr = ?pre @ [MutationTrackerEnable, CallConnectedCallback, MutationTrackerDisable] @ ?rest"
      using that by (simp add: tr_eq tail_steps_def)
    have a: "precedes SetInternals MutationTrackerEnable tr"
      by (rule precedes_split[where pre = ?pre
            and post = "[CallConnectedCallback, MutationTrackerDisable] @ ?rest"])
         (auto simp: t)
    have b: "precedes MutationTrackerEnable CallConnectedCallback tr"
      by (rule precedes_split[where pre = "?pre @ [MutationTrackerEnable]"
            and post = "[MutationTrackerDisable] @ ?rest"])
         (auto simp: t)
    have c: "precedes CallConnectedCallback MutationTrackerDisable tr"
      by (rule precedes_split[where pre = "?pre @ [MutationTrackerEnable, CallConnectedCallback]"
            and post = "?rest"])
         (auto simp: t)
    have d: "precedes MutationTrackerDisable (YieldTmplFn ?cls) tr"
            "precedes CallConnectedCallback (YieldTmplFn ?cls) tr"
      by (rule precedes_split[where pre = "?pre @ [MutationTrackerEnable, CallConnectedCallback,
              MutationTrackerDisable, DeclareTmplFn ?rc, YieldOpenTag, DeclareHostScopeToken ?cls,
              YieldRenderAttrs, YieldTagEnd]"
            and post = "[YieldCloseTag]"], (auto simp: t)[4])+
    have e: "precedes CallConnectedCallback (DeclareTmplFn ?rc) tr"
      by (rule precedes_split[where pre = "?pre @ [MutationTrackerEnable, CallConnectedCallback,
              MutationTrackerDisable]"
            and post = "[YieldOpenTag, DeclareHostScopeToken ?cls,
              YieldRenderAttrs, YieldTagEnd, YieldTmplFn ?cls, YieldCloseTag]"])
         (auto simp: t)
    show ?thesis using a b c d e by simp
  qed
  have p4: "CallConnectedCallback \<notin> set tr" if "\<not> has_cc"
    using that by (auto simp: tr_eq tail_steps_def)
  let ?pre2 = "?head @ map ConnectWire ?ws @ [SetInternals, SetIsConnected]
               @ (if has_cc then [MutationTrackerEnable, CallConnectedCallback, MutationTrackerDisable] else [])
               @ [DeclareTmplFn ?rc]"
  have t2: "tr = ?pre2 @ [YieldOpenTag, DeclareHostScopeToken ?cls, YieldRenderAttrs, YieldTagEnd,
                           YieldTmplFn ?cls, YieldCloseTag]"
    by (simp add: tr_eq tail_steps_def)
  have p5: "precedes YieldOpenTag YieldRenderAttrs tr"
    by (rule precedes_split[where pre = "?pre2 @ [YieldOpenTag, DeclareHostScopeToken ?cls]"
          and post = "[YieldTagEnd, YieldTmplFn ?cls, YieldCloseTag]"])
       (auto simp: t2)
  have p6: "precedes YieldRenderAttrs (YieldTmplFn ?cls) tr" "precedes YieldOpenTag (YieldTmplFn ?cls) tr"
    by (rule precedes_split[where pre = "?pre2 @ [YieldOpenTag, DeclareHostScopeToken ?cls,
            YieldRenderAttrs, YieldTagEnd]"
          and post = "[YieldCloseTag]"], (auto simp: t2)[4])+
  show ?thesis using p1 p2 p3 p4 p5 p6 by blast
qed


theorem generateMarkup_step_order_witness:
  "last (addGenerateMarkupExport (\<lambda>adapters. adapters) (\<lambda>f. f) ([] :: (string, unit) program_stmt list)
           wired_state ''cmp'')
     = ExportGenerateMarkup wired_generateMarkup
   \<and> precedes EstablishContextfulRelationship (ConnectWire ''getRecord'')
        (run_generateMarkup True wired_generateMarkup)
   \<and> precedes (ConnectWire ''getRecord'') SetInternals (run_generateMarkup True wired_generateMarkup)
   \<and> precedes MutationTrackerEnable CallConnectedCallback (run_generateMarkup True wired_generateMarkup)
   \<and> precedes CallConnectedCallback MutationTrackerDisable (run_generateMarkup True wired_generateMarkup)
   \<and> precedes CallConnectedCallback (YieldTmplFn ''Cmp'') (run_generateMarkup True wired_generateMarkup)
   \<and> precedes YieldRenderAttrs (YieldTmplFn ''Cmp'') (run_generateMarkup True wired_generateMarkup)
   \<and> CallConnectedCallback \<notin> set (run_generateMarkup False wired_generateMarkup)"
proof -
  have prog: "last (addGenerateMarkupExport (\<lambda>adapters. adapters) (\<lambda>f. f)
                 ([] :: (string, unit) program_stmt list) wired_state ''cmp'')
              = ExportGenerateMarkup wired_generateMarkup"
    by (simp add: addGenerateMarkupExport_def wired_state_def wired_generateMarkup_def Let_def)
  show ?thesis
    using generateMarkup_step_order[OF prog refl, of True]
      generateMarkup_step_order[OF prog refl, of False] prog
    by (simp add: wired_state_def)
qed

section \<open>Event dispatch\<close>

lemma lookup_own:
  "t \<notin> set Object_prototype_names \<Longrightarrow>
     lookup_listeners n t = (case HostEventListenersKey n t of None \<Rightarrow> NoEntry | Some s \<Rightarrow> ListenerSet s)"
  by (simp add: lookup_listeners_def split: option.splits)


lemma parent_after_remove [simp]:
  "parent_of (after_call h (removeEventListener n t l)) m = parent_of h m"
  by (simp add: after_call_def removeEventListener_def parent_of_def nodes_modify lookup_listeners_def
        split: option.splits)

lemma type_after_remove [simp]:
  "type_of_node (after_call h (removeEventListener n t l)) m = type_of_node h m"
  by (simp add: after_call_def removeEventListener_def type_of_node_def nodes_modify lookup_listeners_def
        split: option.splits)









lemma parent_cleanup [simp]: "parent_of (cleanup l h) m = parent_of h m"
  by (cases l) simp_all

lemma type_cleanup [simp]: "type_of_node (cleanup l h) m = type_of_node h m"
  by (cases l) simp_all

lemma parent_fold_cleanup [simp]: "parent_of (fold cleanup ls h) m = parent_of h m"
  by (induction ls arbitrary: h) simp_all

lemma type_fold_cleanup [simp]: "type_of_node (fold cleanup ls h) m = type_of_node h m"
  by (induction ls arbitrary: h) simp_all












lemma chain_tail: "parent_chain h n (p # ps) \<Longrightarrow> parent_chain h p ps"
  by simp








lemmas event_defs = shadow_tree_def guarded_tree_def throwing_tree_def addEventListener_def
  register_listener_def attachShadow_def Set_add_def Set_delete_def removeEventListener_def
  once_options_def click_def after_call_def lookup_listeners_def Object_prototype_names_def























text \<open>
  The listener map inherits from \<^verbatim>\<open>Object.prototype\<close>: for an event type that is the name
  of an inherited member, registering a listener and dispatching raise a \<^verbatim>\<open>TypeError\<close>,
  also on an element that has no listener at all.
\<close>

lemma inherited_type_raises:
  "addEventListener 2 ''constructor'' cb NotGiven attached_tree = Inl TypeError
   \<and> (\<exists>st. dispatchEvent 2 \<lparr>event_type = ''toString'', composed = c, checks_receiver = r\<rparr> attached_tree
            = Some (Inl TypeError, st) \<and> invoked st = [])"
  by (simp add: dispatchEvent_def bubble.simps run_callbacks_def event_defs build_defs nodes_modify)

text \<open>
  \<^verbatim>\<open>preventDefault\<close> is called with the proxy as receiver: where the receiver is checked the
  call raises and the exception leaves \<^verbatim>\<open>dispatchEvent\<close>.
\<close>

lemma preventDefault_through_proxy:
  "\<exists>st. dispatchEvent 2 \<lparr>event_type = ''click'', composed = c, checks_receiver = r\<rparr>
          (after_call attached_tree (addEventListener 2 ''click'' (Fn 4 [PreventDefault]) NotGiven))
        = Some (if r then Inl TypeError else Inr True, st)
      \<and> invoked st = [(2, Fn 4 [PreventDefault])]
      \<and> defaultPrevented st = (\<not> r)"
  by (cases r)
     (simp_all add: dispatchEvent_def bubble.simps run_callbacks_def event_defs build_defs nodes_modify)




section \<open>Listeners registered with \<^verbatim>\<open>once\<close>\<close>

lemma register_listener_returns:
  "t \<notin> set Object_prototype_names \<Longrightarrow>
     register_listener n t l h = Inr (after_call h (register_listener n t l))"
  by (simp add: register_listener_def after_call_def lookup_own split: option.splits)

lemma parent_after_register [simp]:
  "parent_of (after_call h (register_listener n t l)) m = parent_of h m"
  by (simp add: after_call_def register_listener_def parent_of_def nodes_modify lookup_listeners_def
        split: option.splits)

lemma type_after_register [simp]:
  "type_of_node (after_call h (register_listener n t l)) m = type_of_node h m"
  by (simp add: after_call_def register_listener_def type_of_node_def nodes_modify lookup_listeners_def
        split: option.splits)


lemma after_call_returned: "f h = Inr h' \<Longrightarrow> after_call h f = h'"
  by (simp add: after_call_def)

lemma addEventListener_cases:
  "addEventListener n t cb opts h =
     (case saved_listener n t cb opts h of
        None \<Rightarrow> Inr h
      | Some l \<Rightarrow> register_listener n t l
                    (case l of Plain c \<Rightarrow> h | OnceWrapper w n' t' c \<Rightarrow> h\<lparr>next_closure := Suc (next_closure h)\<rparr>))"
  by (cases opts) (auto simp: addEventListener_def saved_listener_def type_of_node_def)

lemma parent_next_closure [simp]: "parent_of (h\<lparr>next_closure := k\<rparr>) m = parent_of h m"
  by (simp add: parent_of_def)

lemma type_next_closure [simp]: "type_of_node (h\<lparr>next_closure := k\<rparr>) m = type_of_node h m"
  by (simp add: type_of_node_def)

lemma listeners_next_closure [simp]:
  "listeners_of (h\<lparr>next_closure := k\<rparr>) m t = listeners_of h m t"
  by (simp add: listeners_of_def)


lemma after_addEventListener:
  assumes "t \<notin> set Object_prototype_names"
  shows "after_call h (addEventListener n t cb opts) =
     (case saved_listener n t cb opts h of
        None \<Rightarrow> h
      | Some l \<Rightarrow> after_call
                    (case l of Plain c \<Rightarrow> h | OnceWrapper w n' t' c \<Rightarrow> h\<lparr>next_closure := Suc (next_closure h)\<rparr>)
                    (register_listener n t l))"
  by (rule after_call_returned)
     (simp add: addEventListener_cases register_listener_returns[OF assms]
        split: option.splits listener.splits)

lemma parent_after_add [simp]:
  "t \<notin> set Object_prototype_names \<Longrightarrow>
     parent_of (after_call h (addEventListener n t cb opts)) m = parent_of h m"
  by (simp add: after_addEventListener split: option.splits listener.splits)

lemma type_after_add [simp]:
  "t \<notin> set Object_prototype_names \<Longrightarrow>
     type_of_node (after_call h (addEventListener n t cb opts)) m = type_of_node h m"
  by (simp add: after_addEventListener split: option.splits listener.splits)




lemma wf_listeners_empty: "wf_listeners empty_heap"
  by (simp add: wf_listeners_def listeners_of_def empty_heap_def blank_node_def)

lemma capturing_listener_not_registered:
  "capture opt \<Longrightarrow> addEventListener n t cb (WithOptions opt) h = Inr h"
  by (simp add: addEventListener_def)









end
